theory Spec2Isabelle
  imports Complex_Main
begin

section \<open>models/cache.go: entries, TTLs and cache levels\<close>

text \<open>
  Go's \<^verbatim>\<open>[]byte\<close> is a list of 8-bit characters. Unix timestamps (\<^verbatim>\<open>int64\<close> seconds, as
  \<^verbatim>\<open>time.Now().Unix()\<close> returns them) and \<^verbatim>\<open>time.Duration\<close> (\<^verbatim>\<open>int64\<close> nanoseconds) are
  integers, and the source's arithmetic on the fields of an entry and of a TTL wraps around
  at 64 bits (\<open>wrap64\<close>). Every function of the source that reads the wall clock takes the
  reading as its argument \<open>now\<close>; within one call of a cache operation the clock is read as
  one value. The reading is the Unix time at the call, not a value a caller chooses: the
  sums of the reading and one or two durations in seconds (each at most 9223372037) that
  \<^verbatim>\<open>Set\<close> forms stay below \<open>2 ^ 63\<close> for every reading a clock gives, and are taken as
  they are.
\<close>

type_synonym bytes = "char list"

text \<open>\<^verbatim>\<open>time.Second\<close>, in nanoseconds.\<close>

definition Second :: int where
  "Second = 1000000000"

text \<open>The values of Go's \<^verbatim>\<open>int64\<close>, and its arithmetic: the result modulo \<open>2 ^ 64\<close>.\<close>

definition int64 :: "int \<Rightarrow> bool" where
  "int64 x \<longleftrightarrow> - (2 ^ 63) \<le> x \<and> x < 2 ^ 63"

definition wrap64 :: "int \<Rightarrow> int" where
  "wrap64 x = (x + 2 ^ 63) mod 2 ^ 64 - 2 ^ 63"

text \<open>
  A difference of two timestamps that \<^verbatim>\<open>int64\<close> holds and whose seconds, as nanoseconds, a
  \<^verbatim>\<open>time.Duration\<close> holds: 9223372036 is the largest whole number of seconds of a duration.
\<close>

definition in_Duration :: "int \<Rightarrow> bool" where
  "in_Duration s \<longleftrightarrow> - (2 ^ 63) \<le> s \<and> s \<le> 9223372036"

text \<open>Go's integer division and remainder truncate towards zero.\<close>

definition quo :: "int \<Rightarrow> int \<Rightarrow> int" where
  "quo a b = sgn a * sgn b * (\<bar>a\<bar> div \<bar>b\<bar>)"

definition rem :: "int \<Rightarrow> int \<Rightarrow> int" where
  "rem a b = sgn a * (\<bar>a\<bar> mod \<bar>b\<bar>)"

text \<open>
  Go's \<^verbatim>\<open>float64\<close> is IEEE 754 binary64: a conversion or an operation returns the value
  with 53 significant bits nearest to the exact result, the one with an even last bit when
  two are equally near. \<open>ilog2 x\<close> is the binary exponent of a positive \<open>x\<close>
  (\<open>2 ^ e \<le> x < 2 ^ (e + 1)\<close>), \<open>round_even\<close> rounds to the nearest integer, ties to even,
  and \<open>float64 x\<close> is the \<^verbatim>\<open>float64\<close> nearest to \<open>x\<close>. The values rounded here are 0 or lie
  between \<open>1 / 10 ^ 9\<close> and \<open>10 ^ 10\<close> in magnitude, far from the subnormal numbers and from
  overflow.
\<close>

function ilog2 :: "rat \<Rightarrow> int" where
  "ilog2 x =
     (if x \<le> 0 then 0
      else if x < 1 then ilog2 (x * 2) - 1
      else if 2 \<le> x then ilog2 (x / 2) + 1
      else 0)"
  by pat_completeness auto
termination
proof (relation "measure (\<lambda>x. if x < 1 then 2 + nat \<lfloor>1 / x\<rfloor> else nat \<lfloor>x\<rfloor>)")
  show "wf (measure (\<lambda>x::rat. if x < 1 then 2 + nat \<lfloor>1 / x\<rfloor> else nat \<lfloor>x\<rfloor>))" by simp
next
  fix x :: rat
  assume a: "\<not> x \<le> 0" "x < 1"
  show "(x * 2, x) \<in> measure (\<lambda>x. if x < 1 then 2 + nat \<lfloor>1 / x\<rfloor> else nat \<lfloor>x\<rfloor>)"
  proof (cases "x * 2 < 1")
    case True
    have y: "2 < 1 / x" using a True by (simp add: field_simps)
    have "1 / (x * 2) \<le> 1 / x - 1" using y a by (simp add: field_simps)
    then have "\<lfloor>1 / (x * 2)\<rfloor> \<le> \<lfloor>1 / x - 1\<rfloor>" by (rule floor_mono)
    then have "\<lfloor>1 / (x * 2)\<rfloor> < \<lfloor>1 / x\<rfloor>" by simp
    moreover have "0 < \<lfloor>1 / x\<rfloor>" using y by (simp add: less_floor_iff) 
    ultimately show ?thesis using True a by simp
  next
    case False
    then have "x * 2 < 2" "1 \<le> x * 2" using a by simp_all
    then have "\<lfloor>x * 2\<rfloor> = 1" by (simp add: floor_unique)
    then show ?thesis using False a by simp
  qed
next
  fix x :: rat
  assume a: "\<not> x \<le> 0" "\<not> x < 1" "2 \<le> x"
  have "x / 2 \<le> x - 1" using a by simp
  then have "\<lfloor>x / 2\<rfloor> \<le> \<lfloor>x - 1\<rfloor>" by (rule floor_mono)
  then have "\<lfloor>x / 2\<rfloor> < \<lfloor>x\<rfloor>" by simp
  moreover have "0 < \<lfloor>x\<rfloor>" using a by (simp add: less_floor_iff)
  moreover have "\<not> x / 2 < 1" using a by simp
  ultimately show "(x / 2, x) \<in> measure (\<lambda>x. if x < 1 then 2 + nat \<lfloor>1 / x\<rfloor> else nat \<lfloor>x\<rfloor>)"
    using a by simp
qed

declare ilog2.simps [simp del]

definition round_even :: "rat \<Rightarrow> int" where
  "round_even r =
     (let n = \<lfloor>r\<rfloor>; d = r - of_int n
      in if d < 1 / 2 then n else if 1 / 2 < d then n + 1 else if even n then n else n + 1)"

definition float64 :: "rat \<Rightarrow> rat" where
  "float64 x =
     (if x = 0 then 0
      else let u = 2 powi (ilog2 \<bar>x\<bar> - 52) in of_int (round_even (x / u)) * u)"

text \<open>
  \<^verbatim>\<open>Duration.Seconds\<close> of the standard library:
  \<^verbatim>\<open>sec := d / Second; nsec := d % Second; return float64(sec) + float64(nsec)/1e9\<close>.
\<close>

definition Seconds :: "int \<Rightarrow> rat" where
  "Seconds d =
     (let sec = quo d Second; nsec = rem d Second
      in float64 (float64 (of_int sec) + float64 (float64 (of_int nsec) / float64 1000000000)))"

text \<open>The conversion \<^verbatim>\<open>int64(f)\<close> of a \<^verbatim>\<open>float64\<close> truncates towards zero.\<close>

definition int64_of_float64 :: "rat \<Rightarrow> int" where
  "int64_of_float64 f = (if 0 \<le> f then \<lfloor>f\<rfloor> else \<lceil>f\<rceil>)"

text \<open>\<^verbatim>\<open>int64(d.Seconds())\<close>, as the \<^verbatim>\<open>Set\<close> functions of the backends convert a duration.\<close>

definition Seconds_int64 :: "int \<Rightarrow> int" where
  "Seconds_int64 d = int64_of_float64 (Seconds d)"

record TTL =
  Fresh :: int
  Stale :: int

record CacheEntry =
  Data :: bytes
  ExpiresAt :: int
  StaleAt :: int
  CreatedAt :: int

type_synonym CacheLevel = string

definition CacheLevelL1 :: CacheLevel where "CacheLevelL1 = ''L1''"
definition CacheLevelL2 :: CacheLevel where "CacheLevelL2 = ''L2''"
definition CacheLevelMiss :: CacheLevel where "CacheLevelMiss = ''MISS''"

text \<open>\<^verbatim>\<open>fmt.Sprintf("%d", n)\<close> for a natural number.\<close>

definition digit :: "nat \<Rightarrow> char" where
  "digit n = ''0123456789'' ! n"

function Sprintf_d :: "nat \<Rightarrow> string" where
  "Sprintf_d n = (if n < 10 then [digit n] else Sprintf_d (n div 10) @ [digit (n mod 10)])"
  by pat_completeness auto
termination
  by (relation "measure (\<lambda>n. n)") auto

declare Sprintf_d.simps [simp del]

definition CacheLevelFromIndex :: "int \<Rightarrow> CacheLevel" where
  "CacheLevelFromIndex index =
     (if index < 0 then CacheLevelL1
      else if index = 0 then CacheLevelL1
      else if index = 1 then CacheLevelL2
      else ''L'' @ Sprintf_d (nat (index + 1)))"

record CacheResult =
  Entry :: "CacheEntry option"
  Found :: bool
  Level :: CacheLevel

definition IsExpired :: "CacheEntry \<Rightarrow> int \<Rightarrow> bool" where
  "IsExpired ce now = (now > ExpiresAt ce)"

definition IsFresh :: "CacheEntry \<Rightarrow> int \<Rightarrow> bool" where
  "IsFresh ce now = (now \<le> StaleAt ce)"

definition RemainingTTL :: "CacheEntry \<Rightarrow> int \<Rightarrow> TTL" where
  "RemainingTTL ce now =
     (let freshRemaining = wrap64 (StaleAt ce - now);
          freshRemaining = (if freshRemaining < 0 then 0 else freshRemaining);
          staleRemaining = wrap64 (ExpiresAt ce - StaleAt ce);
          staleRemaining = (if staleRemaining < 0 then 0 else staleRemaining)
      in \<lparr>Fresh = wrap64 (freshRemaining * Second), Stale = wrap64 (staleRemaining * Second)\<rparr>)"


section \<open>cache/interfaces.go: the backend contract\<close>

text \<open>
  A backend is an interface value; what its methods read and change is hidden from the
  orchestrator. A method is modelled as a function on the state \<open>'w\<close> of everything the
  backends and the logger can touch, so two tiers may share state or be the same object.
  The first argument of \<open>Get\<close>, \<open>GetStale\<close> and \<open>Set\<close> is the clock reading.
\<close>

record 'w Cache =
  Get :: "int \<Rightarrow> string \<Rightarrow> 'w \<Rightarrow> (CacheEntry option \<times> bool) \<times> 'w"
  GetStale :: "int \<Rightarrow> string \<Rightarrow> 'w \<Rightarrow> (CacheEntry option \<times> bool) \<times> 'w"
  Set :: "int \<Rightarrow> string \<Rightarrow> bytes \<Rightarrow> TTL \<Rightarrow> 'w \<Rightarrow> 'w"
  Delete :: "string \<Rightarrow> 'w \<Rightarrow> 'w"

text \<open>The logger takes a message and the values of its key-value pairs.\<close>

record 'w Logger =
  Debug :: "string \<Rightarrow> string list \<Rightarrow> 'w \<Rightarrow> 'w"
  Info :: "string \<Rightarrow> string list \<Rightarrow> 'w \<Rightarrow> 'w"
  Warn :: "string \<Rightarrow> string list \<Rightarrow> 'w \<Rightarrow> 'w"
  Error :: "string \<Rightarrow> string list \<Rightarrow> 'w \<Rightarrow> 'w"


section \<open>cache/multi/multi.go: the tier orchestrator\<close>

record 'w MultiCache =
  caches :: "'w Cache list"
  logger :: "'w Logger"
  enablePropagation :: bool

text \<open>Indexing a slice out of range panics in Go.\<close>

datatype panic = IndexOutOfRange

text \<open>The loop \<^verbatim>\<open>for i := 0; i < foundAtIndex; i++ { mc.caches[i].Set(...) }\<close>.\<close>

function propagate_loop ::
  "'w MultiCache \<Rightarrow> int \<Rightarrow> string \<Rightarrow> CacheEntry \<Rightarrow> TTL \<Rightarrow> nat \<Rightarrow> nat \<Rightarrow> 'w \<Rightarrow> panic + 'w" where
  "propagate_loop mc now key entry remainingTTL foundAtIndex i w =
     (if i < foundAtIndex then
        (if i < length (caches mc) then
           propagate_loop mc now key entry remainingTTL foundAtIndex (Suc i)
             (Set (caches mc ! i) now key (Data entry) remainingTTL w)
         else Inl IndexOutOfRange)
      else Inr w)"
  by pat_completeness auto
termination
  by (relation "measure (\<lambda>(mc, now, key, entry, remainingTTL, foundAtIndex, i, w). foundAtIndex - i)")
     auto

declare propagate_loop.simps [simp del]

definition propagateToEarlierCaches ::
  "'w MultiCache \<Rightarrow> int \<Rightarrow> string \<Rightarrow> CacheEntry option \<Rightarrow> nat \<Rightarrow> 'w \<Rightarrow> panic + 'w" where
  "propagateToEarlierCaches mc now key entry foundAtIndex w =
     (case entry of
        None \<Rightarrow> Inr w
      | Some e \<Rightarrow>
          if IsExpired e now then Inr w
          else
            let remainingTTL = RemainingTTL e now
            in if Fresh remainingTTL \<le> 0 \<and> Stale remainingTTL \<le> 0 then Inr w
               else propagate_loop mc now key e remainingTTL foundAtIndex 0 w)"

text \<open>The loop \<^verbatim>\<open>for i, c := range mc.caches\<close> of \<^verbatim>\<open>GetWithLevel\<close>, from index \<open>i\<close> on.\<close>

fun GetWithLevel_loop ::
  "'w MultiCache \<Rightarrow> int \<Rightarrow> string \<Rightarrow> nat \<Rightarrow> 'w Cache list \<Rightarrow> 'w \<Rightarrow> panic + (CacheResult \<times> 'w)" where
  "GetWithLevel_loop mc now key i [] w =
     Inr (\<lparr>Entry = None, Found = False, Level = CacheLevelMiss\<rparr>, w)"
| "GetWithLevel_loop mc now key i (c # cs) w =
     (case Get c now key w of
        ((entry, found), w1) \<Rightarrow>
          if found then
            (case (if i > 0 \<and> enablePropagation mc
                   then propagateToEarlierCaches mc now key entry i w1 else Inr w1) of
               Inl p \<Rightarrow> Inl p
             | Inr w2 \<Rightarrow>
                 Inr (\<lparr>Entry = entry, Found = True, Level = CacheLevelFromIndex (int i)\<rparr>, w2))
          else GetWithLevel_loop mc now key (Suc i) cs w1)"

definition GetWithLevel ::
  "'w MultiCache \<Rightarrow> int \<Rightarrow> string \<Rightarrow> 'w \<Rightarrow> panic + (CacheResult \<times> 'w)" where
  "GetWithLevel mc now key w =
     (if length (caches mc) = 0 then
        Inr (\<lparr>Entry = None, Found = False, Level = CacheLevelMiss\<rparr>,
             Warn (logger mc) ''No caches available for get operation'' [''key'', key] w)
      else GetWithLevel_loop mc now key 0 (caches mc) w)"

fun GetStaleWithLevel_loop ::
  "'w MultiCache \<Rightarrow> int \<Rightarrow> string \<Rightarrow> nat \<Rightarrow> 'w Cache list \<Rightarrow> 'w \<Rightarrow> panic + (CacheResult \<times> 'w)" where
  "GetStaleWithLevel_loop mc now key i [] w =
     Inr (\<lparr>Entry = None, Found = False, Level = CacheLevelMiss\<rparr>, w)"
| "GetStaleWithLevel_loop mc now key i (c # cs) w =
     (case GetStale c now key w of
        ((entry, found), w1) \<Rightarrow>
          if found then
            (case (if i > 0 \<and> enablePropagation mc
                   then propagateToEarlierCaches mc now key entry i w1 else Inr w1) of
               Inl p \<Rightarrow> Inl p
             | Inr w2 \<Rightarrow>
                 Inr (\<lparr>Entry = entry, Found = True, Level = CacheLevelFromIndex (int i)\<rparr>, w2))
          else GetStaleWithLevel_loop mc now key (Suc i) cs w1)"

definition GetStaleWithLevel ::
  "'w MultiCache \<Rightarrow> int \<Rightarrow> string \<Rightarrow> 'w \<Rightarrow> panic + (CacheResult \<times> 'w)" where
  "GetStaleWithLevel mc now key w =
     (if length (caches mc) = 0 then
        Inr (\<lparr>Entry = None, Found = False, Level = CacheLevelMiss\<rparr>, w)
      else GetStaleWithLevel_loop mc now key 0 (caches mc) w)"

definition MultiCache_Get ::
  "'w MultiCache \<Rightarrow> int \<Rightarrow> string \<Rightarrow> 'w \<Rightarrow> panic + ((CacheEntry option \<times> bool) \<times> 'w)" where
  "MultiCache_Get mc now key w =
     (case GetWithLevel mc now key w of
        Inl p \<Rightarrow> Inl p
      | Inr (result, w') \<Rightarrow> Inr ((Entry result, Found result), w'))"

definition MultiCache_GetStale ::
  "'w MultiCache \<Rightarrow> int \<Rightarrow> string \<Rightarrow> 'w \<Rightarrow> panic + ((CacheEntry option \<times> bool) \<times> 'w)" where
  "MultiCache_GetStale mc now key w =
     (case GetStaleWithLevel mc now key w of
        Inl p \<Rightarrow> Inl p
      | Inr (result, w') \<Rightarrow> Inr ((Entry result, Found result), w'))"

text \<open>The loops \<^verbatim>\<open>for _, c := range mc.caches\<close> of \<^verbatim>\<open>Set\<close> and \<^verbatim>\<open>Delete\<close>.\<close>

fun Set_loop :: "int \<Rightarrow> string \<Rightarrow> bytes \<Rightarrow> TTL \<Rightarrow> 'w Cache list \<Rightarrow> 'w \<Rightarrow> 'w" where
  "Set_loop now key val ttl [] w = w"
| "Set_loop now key val ttl (c # cs) w = Set_loop now key val ttl cs (Set c now key val ttl w)"

definition MultiCache_Set ::
  "'w MultiCache \<Rightarrow> int \<Rightarrow> string \<Rightarrow> bytes \<Rightarrow> TTL \<Rightarrow> 'w \<Rightarrow> 'w" where
  "MultiCache_Set mc now key val ttl w =
     (if length (caches mc) = 0 then
        Warn (logger mc) ''No caches available for set operation'' [''key'', key] w
      else Set_loop now key val ttl (caches mc) w)"

fun Delete_loop :: "string \<Rightarrow> 'w Cache list \<Rightarrow> 'w \<Rightarrow> 'w" where
  "Delete_loop key [] w = w"
| "Delete_loop key (c # cs) w = Delete_loop key cs (Delete c key w)"

definition MultiCache_Delete :: "'w MultiCache \<Rightarrow> string \<Rightarrow> 'w \<Rightarrow> 'w" where
  "MultiCache_Delete mc key w =
     (if length (caches mc) = 0 then
        Warn (logger mc) ''No caches available for delete operation'' [''key'', key] w
      else Delete_loop key (caches mc) w)"

definition GetCacheCount :: "'w MultiCache \<Rightarrow> nat" where
  "GetCacheCount mc = length (caches mc)"


section \<open>The libraries the backends stand on\<close>

text \<open>
  \<^verbatim>\<open>encoding/json\<close> is a parameter of the backends: \<open>Marshal\<close> returns the payload or an
  error message, \<open>Unmarshal\<close> returns the decoded entry or fails. Nothing is assumed about
  the two functions.
\<close>

record codec =
  Marshal :: "CacheEntry \<Rightarrow> string + bytes"
  Unmarshal :: "bytes \<Rightarrow> CacheEntry option"

text \<open>
  What the logger and the metrics recorder of a backend were told, in order. The default
  collaborators of the source discard it; no function of the source reads it.
\<close>

datatype event =
  LogDebug string
| LogWarn string
| LogError string
| CacheError string string

text \<open>
  The \<^verbatim>\<open>bigcache\<close> library, seen from its three calls: a table of payloads, where a
  lookup of an absent key is an error and \<open>Set\<close> may refuse a payload (\<open>rejects\<close>, any
  policy). Its eviction is not part of the model.
\<close>

datatype bigcache_error = ErrEntryNotFound | ErrRejected

record bigcache =
  entries :: "string \<rightharpoonup> bytes"
  rejects :: "string \<Rightarrow> bytes \<Rightarrow> bool"

definition bigcache_Get :: "bigcache \<Rightarrow> string \<Rightarrow> bigcache_error + bytes" where
  "bigcache_Get c key = (case entries c key of None \<Rightarrow> Inl ErrEntryNotFound | Some data \<Rightarrow> Inr data)"

definition bigcache_Set :: "bigcache \<Rightarrow> string \<Rightarrow> bytes \<Rightarrow> bigcache_error option \<times> bigcache" where
  "bigcache_Set c key data =
     (if rejects c key data then (Some ErrRejected, c)
      else (None, c\<lparr>entries := (entries c)(key \<mapsto> data)\<rparr>))"

definition bigcache_Delete :: "bigcache \<Rightarrow> string \<Rightarrow> bigcache_error option \<times> bigcache" where
  "bigcache_Delete c key =
     (case entries c key of
        None \<Rightarrow> (Some ErrEntryNotFound, c)
      | Some data \<Rightarrow> (None, c\<lparr>entries := (entries c)(key := None)\<rparr>))"

text \<open>
  The KeyDB client, seen from its three calls: a table of payloads, each with the
  expiration it was stored with, behind a connection that is up or not. A lookup of an
  absent key is the error \<^verbatim>\<open>redis.Nil\<close>; every call on a connection that is down is another
  error. The server's own expiry of keys is not part of the model.
\<close>

datatype redis_error = redis_Nil | redis_Unavailable

record KeyDbClient =
  db :: "string \<rightharpoonup> bytes \<times> int"
  unavailable :: bool

definition client_Get :: "KeyDbClient \<Rightarrow> string \<Rightarrow> redis_error + bytes" where
  "client_Get cl key =
     (if unavailable cl then Inl redis_Unavailable
      else case db cl key of None \<Rightarrow> Inl redis_Nil | Some (data, expiration) \<Rightarrow> Inr data)"

definition client_Set ::
  "KeyDbClient \<Rightarrow> string \<Rightarrow> bytes \<Rightarrow> int \<Rightarrow> redis_error option \<times> KeyDbClient" where
  "client_Set cl key data expiration =
     (if unavailable cl then (Some redis_Unavailable, cl)
      else (None, cl\<lparr>db := (db cl)(key \<mapsto> (data, expiration))\<rparr>))"

definition client_Del :: "KeyDbClient \<Rightarrow> string \<Rightarrow> redis_error option \<times> KeyDbClient" where
  "client_Del cl key =
     (if unavailable cl then (Some redis_Unavailable, cl)
      else (None, cl\<lparr>db := (db cl)(key := None)\<rparr>))"


section \<open>cache/l1/bigcache.go: the in-process backend\<close>

record BigCache =
  cache :: bigcache
  maxEntrySize :: int
  bc_events :: "event list"

definition BigCache_Get ::
  "codec \<Rightarrow> int \<Rightarrow> string \<Rightarrow> BigCache \<Rightarrow> (CacheEntry option \<times> bool) \<times> BigCache" where
  "BigCache_Get js now key bc =
     (case bigcache_Get (cache bc) key of
        Inl err \<Rightarrow> ((None, False), bc)
      | Inr data \<Rightarrow>
          (case Unmarshal js data of
             None \<Rightarrow>
               ((None, False),
                bc\<lparr>bc_events := bc_events bc @
                      [LogWarn ''Failed to unmarshal L1 cache entry'', CacheError ''l1'' ''decode''],
                   cache := snd (bigcache_Delete (cache bc) key)\<rparr>)
           | Some entry \<Rightarrow>
               if IsExpired entry now
               then ((None, False), bc\<lparr>cache := snd (bigcache_Delete (cache bc) key)\<rparr>)
               else ((Some entry, True), bc)))"

definition BigCache_GetStale ::
  "codec \<Rightarrow> int \<Rightarrow> string \<Rightarrow> BigCache \<Rightarrow> (CacheEntry option \<times> bool) \<times> BigCache" where
  "BigCache_GetStale js now key bc =
     (case bigcache_Get (cache bc) key of
        Inl err \<Rightarrow> ((None, False), bc)
      | Inr data \<Rightarrow>
          (case Unmarshal js data of
             None \<Rightarrow> ((None, False), bc\<lparr>cache := snd (bigcache_Delete (cache bc) key)\<rparr>)
           | Some entry \<Rightarrow>
               if IsExpired entry now
               then ((None, False), bc\<lparr>cache := snd (bigcache_Delete (cache bc) key)\<rparr>)
               else ((Some entry, True), bc)))"

definition BigCache_Set ::
  "codec \<Rightarrow> int \<Rightarrow> string \<Rightarrow> bytes \<Rightarrow> TTL \<Rightarrow> BigCache \<Rightarrow> BigCache" where
  "BigCache_Set js now key val ttl bc =
     (let entry = \<lparr>Data = val,
                   ExpiresAt = now + Seconds_int64 (Fresh ttl) + Seconds_int64 (Stale ttl),
                   StaleAt = now + Seconds_int64 (Fresh ttl),
                   CreatedAt = now\<rparr>
      in case Marshal js entry of
           Inl err \<Rightarrow>
             bc\<lparr>bc_events := bc_events bc @
                   [LogError ''Failed to marshal cache entry'', CacheError ''l1'' ''encode'']\<rparr>
         | Inr data \<Rightarrow>
             if int (length data) > maxEntrySize bc then
               bc\<lparr>bc_events := bc_events bc @
                     [LogWarn ''Cache entry too large, skipping L1 cache'',
                      CacheError ''l1'' ''entry_too_large'']\<rparr>
             else
               (case bigcache_Set (cache bc) key data of
                  (Some err, c) \<Rightarrow>
                    bc\<lparr>cache := c,
                       bc_events := bc_events bc @
                         [LogError ''Failed to set cache entry'', CacheError ''l1'' ''upstream'']\<rparr>
                | (None, c) \<Rightarrow> bc\<lparr>cache := c\<rparr>))"

definition BigCache_Delete :: "string \<Rightarrow> BigCache \<Rightarrow> BigCache" where
  "BigCache_Delete key bc = bc\<lparr>cache := snd (bigcache_Delete (cache bc) key)\<rparr>"


section \<open>cache/l2/keydb.go: the networked backend\<close>

record KeyDBCache =
  client :: KeyDbClient
  kc_events :: "event list"

definition KeyDBCache_Get ::
  "codec \<Rightarrow> int \<Rightarrow> string \<Rightarrow> KeyDBCache \<Rightarrow> (CacheEntry option \<times> bool) \<times> KeyDBCache" where
  "KeyDBCache_Get js now key kc =
     (case client_Get (client kc) key of
        Inl err \<Rightarrow>
          if err = redis_Nil then ((None, False), kc)
          else ((None, False), kc\<lparr>kc_events := kc_events kc @ [LogWarn ''L2 cache get failed'']\<rparr>)
      | Inr data \<Rightarrow>
          (case Unmarshal js data of
             None \<Rightarrow>
               ((None, False),
                kc\<lparr>kc_events := kc_events kc @
                      [LogError ''Failed to unmarshal L2 cache entry'', CacheError ''l2'' ''decode''],
                   client := snd (client_Del (client kc) key)\<rparr>)
           | Some entry \<Rightarrow>
               if IsExpired entry now
               then ((None, False), kc\<lparr>client := snd (client_Del (client kc) key)\<rparr>)
               else ((Some entry, True), kc)))"

definition KeyDBCache_GetStale ::
  "codec \<Rightarrow> int \<Rightarrow> string \<Rightarrow> KeyDBCache \<Rightarrow> (CacheEntry option \<times> bool) \<times> KeyDBCache" where
  "KeyDBCache_GetStale js now key kc =
     (case client_Get (client kc) key of
        Inl err \<Rightarrow>
          if err = redis_Nil then ((None, False), kc)
          else ((None, False),
                kc\<lparr>kc_events := kc_events kc @ [LogWarn ''L2 cache stale get failed'']\<rparr>)
      | Inr data \<Rightarrow>
          (case Unmarshal js data of
             None \<Rightarrow>
               ((None, False),
                kc\<lparr>kc_events := kc_events kc @
                      [LogError ''Failed to unmarshal L2 cache entry for stale get''],
                   client := snd (client_Del (client kc) key)\<rparr>)
           | Some entry \<Rightarrow>
               if IsExpired entry now
               then ((None, False), kc\<lparr>client := snd (client_Del (client kc) key)\<rparr>)
               else ((Some entry, True), kc)))"

definition KeyDBCache_Set ::
  "codec \<Rightarrow> int \<Rightarrow> string \<Rightarrow> bytes \<Rightarrow> TTL \<Rightarrow> KeyDBCache \<Rightarrow> KeyDBCache" where
  "KeyDBCache_Set js now key val ttl kc =
     (let entry = \<lparr>Data = val,
                   ExpiresAt = now + Seconds_int64 (Fresh ttl) + Seconds_int64 (Stale ttl),
                   StaleAt = now + Seconds_int64 (Fresh ttl),
                   CreatedAt = now\<rparr>
      in case Marshal js entry of
           Inl err \<Rightarrow>
             kc\<lparr>kc_events := kc_events kc @
                   [LogError ''Failed to marshal L2 cache entry'', CacheError ''l2'' ''encode'']\<rparr>
         | Inr data \<Rightarrow>
             (let totalTTL = wrap64 (Fresh ttl + Stale ttl)
              in case client_Set (client kc) key data totalTTL of
                   (Some err, cl) \<Rightarrow>
                     kc\<lparr>client := cl,
                        kc_events := kc_events kc @
                          [LogWarn ''Failed to set L2 cache entry'', CacheError ''l2'' ''redis'']\<rparr>
                 | (None, cl) \<Rightarrow> kc\<lparr>client := cl\<rparr>))"

definition KeyDBCache_Delete :: "string \<Rightarrow> KeyDBCache \<Rightarrow> KeyDBCache" where
  "KeyDBCache_Delete key kc =
     (case client_Del (client kc) key of
        (Some err, cl) \<Rightarrow>
          kc\<lparr>client := cl,
             kc_events := kc_events kc @ [LogWarn ''Failed to delete L2 cache entry'']\<rparr>
      | (None, cl) \<Rightarrow> kc\<lparr>client := cl\<rparr>)"


section \<open>Notions for stating what the orchestrator does\<close>

text \<open>
  \<open>consulted getf now key cs w\<close> is the state after the tiers \<open>cs\<close> have been asked for
  \<open>key\<close>, one after the other, with the method \<open>getf\<close> (\<open>Get\<close> or \<open>GetStale\<close>);
  \<open>answer getf now key cs w j\<close> is what tier \<open>j\<close> answers when the tiers before it have been
  asked first. \<open>written\<close> is the state after \<open>Set\<close> on the listed tiers, in order.
  \<open>promoted\<close> is the state the promotion of an entry to the tiers before \<open>i\<close> leaves.
  \<open>scan_loop\<close> is the
  loop that \<^verbatim>\<open>GetWithLevel\<close> and \<^verbatim>\<open>GetStaleWithLevel\<close> both contain, with the method left open.
\<close>

definition consulted ::
  "('w Cache \<Rightarrow> int \<Rightarrow> string \<Rightarrow> 'w \<Rightarrow> (CacheEntry option \<times> bool) \<times> 'w) \<Rightarrow>
   int \<Rightarrow> string \<Rightarrow> 'w Cache list \<Rightarrow> 'w \<Rightarrow> 'w" where
  "consulted getf now key cs w = foldl (\<lambda>w c. snd (getf c now key w)) w cs"

definition answer ::
  "('w Cache \<Rightarrow> int \<Rightarrow> string \<Rightarrow> 'w \<Rightarrow> (CacheEntry option \<times> bool) \<times> 'w) \<Rightarrow>
   int \<Rightarrow> string \<Rightarrow> 'w Cache list \<Rightarrow> 'w \<Rightarrow> nat \<Rightarrow> CacheEntry option \<times> bool" where
  "answer getf now key cs w j = fst (getf (cs ! j) now key (consulted getf now key (take j cs) w))"

definition written :: "int \<Rightarrow> string \<Rightarrow> bytes \<Rightarrow> TTL \<Rightarrow> 'w Cache list \<Rightarrow> 'w \<Rightarrow> 'w" where
  "written now key val ttl cs w = foldl (\<lambda>w c. Set c now key val ttl w) w cs"

definition promoted ::
  "'w MultiCache \<Rightarrow> int \<Rightarrow> string \<Rightarrow> CacheEntry option \<Rightarrow> nat \<Rightarrow> 'w \<Rightarrow> 'w" where
  "promoted mc now key entry i w =
     (case entry of
        None \<Rightarrow> w
      | Some e \<Rightarrow>
          if IsExpired e now \<or>
             (Fresh (RemainingTTL e now) \<le> 0 \<and> Stale (RemainingTTL e now) \<le> 0)
          then w
          else written now key (Data e) (RemainingTTL e now) (take i (caches mc)) w)"

fun scan_loop ::
  "('w Cache \<Rightarrow> int \<Rightarrow> string \<Rightarrow> 'w \<Rightarrow> (CacheEntry option \<times> bool) \<times> 'w) \<Rightarrow>
   'w MultiCache \<Rightarrow> int \<Rightarrow> string \<Rightarrow> nat \<Rightarrow> 'w Cache list \<Rightarrow> 'w \<Rightarrow> panic + (CacheResult \<times> 'w)" where
  "scan_loop getf mc now key i [] w =
     Inr (\<lparr>Entry = None, Found = False, Level = CacheLevelMiss\<rparr>, w)"
| "scan_loop getf mc now key i (c # cs) w =
     (case getf c now key w of
        ((entry, found), w1) \<Rightarrow>
          if found then
            (case (if i > 0 \<and> enablePropagation mc
                   then propagateToEarlierCaches mc now key entry i w1 else Inr w1) of
               Inl p \<Rightarrow> Inl p
             | Inr w2 \<Rightarrow>
                 Inr (\<lparr>Entry = entry, Found = True, Level = CacheLevelFromIndex (int i)\<rparr>, w2))
          else scan_loop getf mc now key (Suc i) cs w1)"


text \<open>
  What a backend lookup returns according to the specification, from what the store holds
  under the key: a miss for no payload, for an undecodable payload and for an entry past
  its expiry; otherwise the entry, whatever its freshness.
\<close>

definition lookup_spec :: "codec \<Rightarrow> int \<Rightarrow> bytes option \<Rightarrow> CacheEntry option \<times> bool" where
  "lookup_spec js now stored =
     (case stored of
        None \<Rightarrow> (None, False)
      | Some data \<Rightarrow>
          (case Unmarshal js data of
             None \<Rightarrow> (None, False)
           | Some e \<Rightarrow> if now > ExpiresAt e then (None, False) else (Some e, True)))"

text \<open>
  The two backends as tiers of one orchestrator, as in the package's README
  (\<^verbatim>\<open>[]cache.Cache{l1Cache, l2Cache}\<close>): the world is the pair of their states.
\<close>

definition L1_tier :: "codec \<Rightarrow> (BigCache \<times> KeyDBCache) Cache" where
  "L1_tier js =
     \<lparr>Get = (\<lambda>now key w. case BigCache_Get js now key (fst w) of (r, bc) \<Rightarrow> (r, (bc, snd w))),
      GetStale = (\<lambda>now key w. case BigCache_GetStale js now key (fst w) of (r, bc) \<Rightarrow> (r, (bc, snd w))),
      Set = (\<lambda>now key val ttl w. (BigCache_Set js now key val ttl (fst w), snd w)),
      Delete = (\<lambda>key w. (BigCache_Delete key (fst w), snd w))\<rparr>"

definition L2_tier :: "codec \<Rightarrow> (BigCache \<times> KeyDBCache) Cache" where
  "L2_tier js =
     \<lparr>Get = (\<lambda>now key w. case KeyDBCache_Get js now key (snd w) of (r, kc) \<Rightarrow> (r, (fst w, kc))),
      GetStale = (\<lambda>now key w. case KeyDBCache_GetStale js now key (snd w) of (r, kc) \<Rightarrow> (r, (fst w, kc))),
      Set = (\<lambda>now key val ttl w. (fst w, KeyDBCache_Set js now key val ttl (snd w))),
      Delete = (\<lambda>key w. (fst w, KeyDBCache_Delete key (snd w)))\<rparr>"

text \<open>\<^verbatim>\<open>cache.NoopLogger\<close>: every method discards its arguments.\<close>

definition NoopLogger :: "'w Logger" where
  "NoopLogger =
     \<lparr>Debug = (\<lambda>msg kvs w. w), Info = (\<lambda>msg kvs w. w),
      Warn = (\<lambda>msg kvs w. w), Error = (\<lambda>msg kvs w. w)\<rparr>"


section \<open>Test doubles\<close>

text \<open>
  The tests of the orchestrator (\<^verbatim>\<open>multi_test.go\<close>) run it on mock backends that record
  their calls and return canned answers. \<open>MockCache n r s\<close> is tier \<open>n\<close> of such a test: the
  world is the list of calls made so far, \<open>r\<close> is what \<open>Get\<close> returns and \<open>s\<close> what
  \<open>GetStale\<close> returns. \<open>MockLogger\<close> records the warnings. \<open>table_codec\<close> is a codec that
  knows the payloads of a finite table of entries.
\<close>

datatype call =
  GetCall nat string
| GetStaleCall nat string
| SetCall nat string bytes TTL
| DeleteCall nat string
| WarnCall string "string list"

definition MockCache ::
  "nat \<Rightarrow> CacheEntry option \<times> bool \<Rightarrow> CacheEntry option \<times> bool \<Rightarrow> call list Cache" where
  "MockCache n r s =
     \<lparr>Get = (\<lambda>now key w. (r, w @ [GetCall n key])),
      GetStale = (\<lambda>now key w. (s, w @ [GetStaleCall n key])),
      Set = (\<lambda>now key val ttl w. w @ [SetCall n key val ttl]),
      Delete = (\<lambda>key w. w @ [DeleteCall n key])\<rparr>"

definition MockLogger :: "call list Logger" where
  "MockLogger =
     \<lparr>Debug = (\<lambda>msg kvs w. w), Info = (\<lambda>msg kvs w. w),
      Warn = (\<lambda>msg kvs w. w @ [WarnCall msg kvs]), Error = (\<lambda>msg kvs w. w)\<rparr>"

definition table_codec :: "(bytes \<times> CacheEntry) list \<Rightarrow> codec" where
  "table_codec tbl =
     \<lparr>Marshal = (\<lambda>e. case find (\<lambda>p. snd p = e) tbl of
                         None \<Rightarrow> Inl ''json: unsupported value''
                       | Some p \<Rightarrow> Inr (fst p)),
      Unmarshal = map_of tbl\<rparr>"


text \<open>The fixtures of the tests: an entry written at time 100 with 60 s fresh and 30 s stale.\<close>

definition testEntry :: CacheEntry where
  "testEntry = \<lparr>Data = ''test-value'', ExpiresAt = 190, StaleAt = 160, CreatedAt = 100\<rparr>"

definition testTTL :: TTL where
  "testTTL = \<lparr>Fresh = 60 * Second, Stale = 30 * Second\<rparr>"

definition testCodec :: codec where
  "testCodec = table_codec [(''payload'', testEntry)]"

definition emptyBigCache :: "int \<Rightarrow> BigCache" where
  "emptyBigCache maxSize =
     \<lparr>cache = \<lparr>entries = Map.empty, rejects = (\<lambda>key data. False)\<rparr>,
      maxEntrySize = maxSize, bc_events = []\<rparr>"

definition keyDBHolding :: "(string \<rightharpoonup> bytes \<times> int) \<Rightarrow> KeyDBCache" where
  "keyDBHolding m = \<lparr>client = \<lparr>db = m, unavailable = False\<rparr>, kc_events = []\<rparr>"

text \<open>
  A mock tier that misses and one that holds the test entry; an in-process backend whose
  library refuses every payload.
\<close>

definition missTier :: "nat \<Rightarrow> call list Cache" where
  "missTier n = MockCache n (None, False) (None, False)"

definition hitTier :: "nat \<Rightarrow> call list Cache" where
  "hitTier n = MockCache n (Some testEntry, True) (Some testEntry, True)"

definition fullBigCache :: BigCache where
  "fullBigCache =
     \<lparr>cache = \<lparr>entries = Map.empty, rejects = (\<lambda>key data. True)\<rparr>,
      maxEntrySize = 1048576, bc_events = []\<rparr>"


section \<open>The entry and freshness model\<close>

lemma Second_pos: "0 < Second"
  by (simp add: Second_def)

subsection \<open>The conversion of a duration to seconds\<close>

lemma ilog2_spec:
  "0 < x \<Longrightarrow> 2 powi (ilog2 x) \<le> x \<and> x < 2 powi (ilog2 x + 1)"
proof (induction x rule: ilog2.induct)
  case (1 x)
  show ?case
  proof (cases "x < 1")
    case True
    have pos: "0 < x * 2" using "1.prems" by simp
    have nle: "\<not> x \<le> 0" using "1.prems" by simp
    from "1.IH"(1) [OF nle True pos]
    have ih: "2 powi (ilog2 (x * 2)) \<le> x * 2" "x * 2 < 2 powi (ilog2 (x * 2) + 1)" by simp_all
    have eq: "ilog2 x = ilog2 (x * 2) - 1"
      using True nle by (subst ilog2.simps) simp
    have a: "(2::rat) powi (ilog2 (x * 2) - 1) = 2 powi (ilog2 (x * 2)) / 2"
      by (simp add: power_int_diff)
    have b: "(2::rat) powi (ilog2 (x * 2) + 1) = 2 powi (ilog2 (x * 2)) * 2"
      by (simp add: power_int_add)
    show ?thesis
      using ih unfolding eq a by (simp add: b)
  next
    case False
    note nlt = False
    show ?thesis
    proof (cases "2 \<le> x")
      case True
      have pos: "0 < x / 2" using "1.prems" by simp
      have nle: "\<not> x \<le> 0" using "1.prems" by simp
      from "1.IH"(2) [OF nle nlt True pos]
      have ih: "2 powi (ilog2 (x / 2)) \<le> x / 2" "x / 2 < 2 powi (ilog2 (x / 2) + 1)" by simp_all
      have eq: "ilog2 x = ilog2 (x / 2) + 1"
        using True nlt nle by (subst ilog2.simps) simp
      have b: "(2::rat) powi (ilog2 (x / 2) + 1) = 2 powi (ilog2 (x / 2)) * 2"
        by (simp add: power_int_add)
      have c: "(2::rat) powi (ilog2 (x / 2) + 1 + 1) = 2 powi (ilog2 (x / 2)) * 4"
        by (simp add: power_int_add)
      show ?thesis
        using ih unfolding eq c by (simp add: b)
    next
      case False
      have eq: "ilog2 x = 0"
        using False nlt "1.prems" by (subst ilog2.simps) simp
      show ?thesis using False nlt by (simp add: eq)
    qed
  qed
qed

lemma powi_less_imp_less: "(2::rat) powi a < 2 powi b \<Longrightarrow> a < b"
proof (rule ccontr)
  assume lt: "(2::rat) powi a < 2 powi b" and "\<not> a < b"
  then have "b \<le> a" by simp
  then have "(2::rat) powi b \<le> 2 powi a" by (intro power_int_increasing) simp_all
  with lt show False by simp
qed


lemma round_even_of_int [simp]: "round_even (of_int n) = n"
  by (simp add: round_even_def)



lemma float64_0 [simp]: "float64 0 = 0"
  by (simp add: float64_def)

lemma float64_of_int:
  assumes "\<bar>n\<bar> < 2 ^ 53"
  shows "float64 (of_int n) = of_int n"
proof (cases "n = 0")
  case True
  then show ?thesis by simp
next
  case False
  define x :: rat where "x = \<bar>of_int n\<bar>"
  have x1: "1 \<le> x" using False by (simp add: x_def flip: of_int_abs)
  have x0: "0 < x" using x1 by simp
  define e where "e = ilog2 x"
  from ilog2_spec [OF x0] have s: "2 powi e \<le> x" "x < 2 powi (e + 1)" by (simp_all add: e_def)
  have xu: "x < 2 powi 53"
  proof -
    have "x = of_int \<bar>n\<bar>" by (simp add: x_def)
    also have "\<dots> < of_int (2 ^ 53)" using assms by (simp only: of_int_less_iff)
    finally show ?thesis by simp
  qed
  have "(2::rat) powi e < 2 powi 53" using s(1) xu by simp
  then have e53: "e < 53" by (rule powi_less_imp_less)
  have "(2::rat) powi 0 < 2 powi (e + 1)" using s(2) x1 by simp
  then have "0 < e + 1" by (rule powi_less_imp_less)
  then have e0: "0 \<le> e" by simp
  define k where "k = nat (52 - e)"
  have ke: "e - 52 = - int k" using e53 by (simp add: k_def)
  have u: "(2::rat) powi (e - 52) = 1 / 2 ^ k"
    unfolding ke by (simp add: power_int_minus field_simps)
  have q: "of_int n / (1 / 2 ^ k) = (of_int (n * 2 ^ k) :: rat)" by simp
  have "float64 (of_int n) = of_int (round_even (of_int n / (1 / 2 ^ k))) * (1 / 2 ^ k)"
    using False by (simp add: float64_def Let_def flip: x_def e_def u)
  also have "\<dots> = of_int (n * 2 ^ k) * (1 / 2 ^ k)"
    by (simp only: q round_even_of_int)
  also have "\<dots> = of_int n" by simp
  finally show ?thesis .
qed
















lemma quo_whole: "quo (n * Second) Second = n"
proof -
  have "\<bar>n * Second\<bar> div \<bar>Second\<bar> = \<bar>n\<bar>"
    using Second_pos by (simp add: abs_mult)
  moreover have "sgn (n * Second) * sgn Second = sgn n"
    using Second_pos by (simp add: sgn_mult)
  ultimately show ?thesis
    by (simp add: quo_def mult_sgn_abs)
qed

lemma rem_whole: "rem (n * Second) Second = 0"
  using Second_pos by (simp add: rem_def abs_mult)

lemma int64_of_float64_of_int [simp]: "int64_of_float64 (of_int n) = n"
  by (simp add: int64_of_float64_def)

lemma Seconds_int64_whole:
  assumes "\<bar>n\<bar> < 2 ^ 53"
  shows "Seconds_int64 (n * Second) = n"
  using float64_of_int [OF assms]
  by (simp add: Seconds_int64_def Seconds_def quo_whole rem_whole)







lemma Seconds_int64_0 [simp]: "Seconds_int64 0 = 0"
  using Seconds_int64_whole [of 0] by simp

text \<open>The durations of the test fixtures, in seconds.\<close>

lemma testTTL_seconds:
  "Seconds_int64 (Fresh testTTL) = 60" "Seconds_int64 (Stale testTTL) = 30"
  "Seconds_int64 (60 * Second) = 60" "Seconds_int64 (30 * Second) = 30"
  using Seconds_int64_whole [of 60] Seconds_int64_whole [of 30]
  by (simp_all add: testTTL_def)

subsection \<open>Arithmetic modulo \<open>2 ^ 64\<close>\<close>

lemma wrap64_id: "int64 x \<Longrightarrow> wrap64 x = x"
  by (simp add: wrap64_def int64_def)

lemma in_Duration_int64: "in_Duration s \<Longrightarrow> int64 s"
  by (simp add: in_Duration_def int64_def)

lemma in_Duration_nanoseconds:
  assumes "in_Duration s"
  shows "int64 (max 0 s * Second)"
proof -
  have "max 0 s \<le> 9223372036" using assms by (simp add: in_Duration_def)
  then have "max 0 s * Second \<le> 9223372036 * Second"
    using Second_pos by (intro mult_right_mono) simp_all
  moreover have "9223372036 * Second < 2 ^ 63" by (simp add: Second_def)
  moreover have "0 \<le> max 0 s * Second" using Second_pos by simp
  ultimately show ?thesis by (simp add: int64_def)
qed

lemma testTTL_total: "wrap64 (Fresh testTTL + Stale testTTL) = 90 * Second"
  by (simp add: testTTL_def wrap64_def Second_def)

subsection \<open>The remaining TTL\<close>

lemma RemainingTTL_max:
  "RemainingTTL ce now =
     \<lparr>Fresh = wrap64 (max 0 (wrap64 (StaleAt ce - now)) * Second),
      Stale = wrap64 (max 0 (wrap64 (ExpiresAt ce - StaleAt ce)) * Second)\<rparr>"
  by (auto simp: RemainingTTL_def Let_def max_def)

lemma RemainingTTL_Fresh:
  assumes "in_Duration (StaleAt ce - now)"
  shows "Fresh (RemainingTTL ce now) = max 0 (StaleAt ce - now) * Second"
proof -
  have w: "wrap64 (StaleAt ce - now) = StaleAt ce - now"
    using assms by (intro wrap64_id in_Duration_int64)
  have "wrap64 (max 0 (StaleAt ce - now) * Second) = max 0 (StaleAt ce - now) * Second"
    using assms by (intro wrap64_id in_Duration_nanoseconds)
  then show ?thesis
    by (simp add: RemainingTTL_max w)
qed

lemma RemainingTTL_Stale:
  assumes "in_Duration (ExpiresAt ce - StaleAt ce)"
  shows "Stale (RemainingTTL ce now) = max 0 (ExpiresAt ce - StaleAt ce) * Second"
proof -
  have w: "wrap64 (ExpiresAt ce - StaleAt ce) = ExpiresAt ce - StaleAt ce"
    using assms by (intro wrap64_id in_Duration_int64)
  have "wrap64 (max 0 (ExpiresAt ce - StaleAt ce) * Second) = max 0 (ExpiresAt ce - StaleAt ce) * Second"
    using assms by (intro wrap64_id in_Duration_nanoseconds)
  then show ?thesis
    by (simp add: RemainingTTL_max w)
qed


lemma RemainingTTL_testEntry:
  "RemainingTTL testEntry 110 = \<lparr>Fresh = 50 * Second, Stale = 30 * Second\<rparr>"
  "RemainingTTL testEntry 170 = \<lparr>Fresh = 0, Stale = 30 * Second\<rparr>"
  by (simp_all add: RemainingTTL_def testEntry_def wrap64_def Second_def)

subsection \<open>Cache levels\<close>

text \<open>The table of \<^verbatim>\<open>TestCacheLevelFromIndex\<close>.\<close>

lemma CacheLevelFromIndex_table:
  "CacheLevelFromIndex 0 = ''L1''" "CacheLevelFromIndex 1 = ''L2''"
  "CacheLevelFromIndex 2 = ''L3''" "CacheLevelFromIndex 3 = ''L4''"
  "CacheLevelFromIndex 10 = ''L11''" "CacheLevelFromIndex (- 1) = ''L1''"
  "CacheLevelFromIndex (- 5) = ''L1''" "CacheLevelFromIndex (- 100) = ''L1''"
  by (simp_all add: CacheLevelFromIndex_def CacheLevelL1_def CacheLevelL2_def
      Sprintf_d.simps digit_def)


text \<open>The level names the index: different tiers have different levels.\<close>

lemma digit_inj: "n < 10 \<Longrightarrow> m < 10 \<Longrightarrow> digit n = digit m \<Longrightarrow> n = m"
proof -
  assume n: "n < 10" and m: "m < 10" and eq: "digit n = digit m"
  have d: "distinct ''0123456789''" by simp
  have "n < length ''0123456789''" "m < length ''0123456789''" using n m by simp_all
  with d eq show "n = m"
    unfolding digit_def by (simp only: nth_eq_iff_index_eq)
qed

lemma Sprintf_d_nonempty: "Sprintf_d n \<noteq> []"
  by (subst Sprintf_d.simps) simp

lemma Sprintf_d_inj: "Sprintf_d n = Sprintf_d m \<Longrightarrow> n = m"
proof (induction n arbitrary: m rule: Sprintf_d.induct)
  case (1 n)
  show ?case
  proof (cases "n < 10")
    case True
    show ?thesis
    proof (cases "m < 10")
      case mt: True
      from "1.prems" True mt have "digit n = digit m"
        by (simp add: Sprintf_d.simps [of n] Sprintf_d.simps [of m])
      then show ?thesis using True mt by (rule_tac digit_inj)
    next
      case mf: False
      from "1.prems" True mf have "[digit n] = Sprintf_d (m div 10) @ [digit (m mod 10)]"
        by (simp add: Sprintf_d.simps [of n] Sprintf_d.simps [of m])
      then show ?thesis using Sprintf_d_nonempty [of "m div 10"] by simp
    qed
  next
    case False
    show ?thesis
    proof (cases "m < 10")
      case mt: True
      from "1.prems" False mt have "Sprintf_d (n div 10) @ [digit (n mod 10)] = [digit m]"
        by (simp add: Sprintf_d.simps [of n] Sprintf_d.simps [of m])
      then show ?thesis using Sprintf_d_nonempty [of "n div 10"] by simp
    next
      case mf: False
      from "1.prems" False mf
      have eq: "Sprintf_d (n div 10) @ [digit (n mod 10)] = Sprintf_d (m div 10) @ [digit (m mod 10)]"
        by (simp add: Sprintf_d.simps [of n] Sprintf_d.simps [of m])
      then have a: "Sprintf_d (n div 10) = Sprintf_d (m div 10)"
        and b: "digit (n mod 10) = digit (m mod 10)" by simp_all
      from "1.IH" [OF False a] have q: "n div 10 = m div 10" .
      from b have r: "n mod 10 = m mod 10" by (intro digit_inj) simp_all
      from q r show ?thesis by (metis div_mult_mod_eq)
    qed
  qed
qed

lemma CacheLevelFromIndex_Sprintf:
  "0 \<le> i \<Longrightarrow> CacheLevelFromIndex i = ''L'' @ Sprintf_d (nat (i + 1))"
proof -
  assume "0 \<le> i"
  have one: "Sprintf_d 1 = ''1''" and two: "Sprintf_d 2 = ''2''"
    by (simp_all add: Sprintf_d.simps digit_def)
  have "i = 0 \<or> i = 1 \<or> 2 \<le> i" using \<open>0 \<le> i\<close> by linarith
  then show ?thesis
    using one two
    by (auto simp: CacheLevelFromIndex_def CacheLevelL1_def CacheLevelL2_def)
qed

lemma CacheLevelFromIndex_inj:
  "0 \<le> i \<Longrightarrow> 0 \<le> j \<Longrightarrow> CacheLevelFromIndex i = CacheLevelFromIndex j \<Longrightarrow> i = j"
proof -
  assume i: "0 \<le> i" and j: "0 \<le> j" and eq: "CacheLevelFromIndex i = CacheLevelFromIndex j"
  then have "Sprintf_d (nat (i + 1)) = Sprintf_d (nat (j + 1))"
    by (simp add: CacheLevelFromIndex_Sprintf)
  then have "nat (i + 1) = nat (j + 1)" by (rule Sprintf_d_inj)
  then show "i = j" using i j by simp
qed


text \<open>
  C8. For every entry and time \<open>t\<close>: the entry is fresh exactly when \<open>t \<le> staleAt\<close>, it is
  expired exactly when \<open>t > expiresAt\<close>, and where \<open>staleAt \<le> expiresAt\<close> every expired entry
  is also not fresh.
\<close>

theorem C8_fresh_expired:
  "(IsFresh ce t \<longleftrightarrow> t \<le> StaleAt ce) \<and>
   (IsExpired ce t \<longleftrightarrow> t > ExpiresAt ce) \<and>
   (StaleAt ce \<le> ExpiresAt ce \<longrightarrow> IsExpired ce t \<longrightarrow> \<not> IsFresh ce t)"
  by (auto simp: IsFresh_def IsExpired_def)

theorem C8_fresh_expired_witness:
  "StaleAt \<lparr>Data = ''d'', ExpiresAt = 190, StaleAt = 160, CreatedAt = 100\<rparr>
     \<le> ExpiresAt \<lparr>Data = ''d'', ExpiresAt = 190, StaleAt = 160, CreatedAt = 100\<rparr> \<and>
   IsExpired \<lparr>Data = ''d'', ExpiresAt = 190, StaleAt = 160, CreatedAt = 100\<rparr> 195 \<and>
   \<not> IsFresh \<lparr>Data = ''d'', ExpiresAt = 190, StaleAt = 160, CreatedAt = 100\<rparr> 195"
  using C8_fresh_expired
    [of "\<lparr>Data = ''d'', ExpiresAt = 190, StaleAt = 160, CreatedAt = 100\<rparr>" 195]
  by simp





section \<open>The orchestrator: the scan and the promotion\<close>

lemma GetWithLevel_loop_scan: "GetWithLevel_loop mc now key i cs w = scan_loop Get mc now key i cs w"
  by (induction cs arbitrary: i w) (auto split: prod.splits)

lemma GetStaleWithLevel_loop_scan:
  "GetStaleWithLevel_loop mc now key i cs w = scan_loop GetStale mc now key i cs w"
  by (induction cs arbitrary: i w) (auto split: prod.splits)

lemma consulted_Nil [simp]: "consulted getf now key [] w = w"
  by (simp add: consulted_def)

lemma consulted_Cons [simp]:
  "consulted getf now key (c # cs) w = consulted getf now key cs (snd (getf c now key w))"
  by (simp add: consulted_def)

lemma answer_0 [simp]: "answer getf now key (c # cs) w 0 = fst (getf c now key w)"
  by (simp add: answer_def)

lemma answer_Suc [simp]:
  "answer getf now key (c # cs) w (Suc j) = answer getf now key cs (snd (getf c now key w)) j"
  by (simp add: answer_def)

lemma scan_loop_all_miss:
  "\<forall>j<length cs. \<not> snd (answer getf now key cs w j) \<Longrightarrow>
   scan_loop getf mc now key i cs w =
     Inr (\<lparr>Entry = None, Found = False, Level = CacheLevelMiss\<rparr>, consulted getf now key cs w)"
proof (induction cs arbitrary: i w)
  case Nil
  then show ?case by simp
next
  case (Cons c cs)
  from Cons.prems have miss0: "\<not> snd (fst (getf c now key w))"
    by (metis answer_0 length_greater_0_conv list.distinct(1))
  have rest: "\<forall>j<length cs. \<not> snd (answer getf now key cs (snd (getf c now key w)) j)"
  proof (intro allI impI)
    fix j assume "j < length cs"
    then have "Suc j < length (c # cs)" by simp
    with Cons.prems have "\<not> snd (answer getf now key (c # cs) w (Suc j))" by blast
    then show "\<not> snd (answer getf now key cs (snd (getf c now key w)) j)" by simp
  qed
  obtain entry found w1 where g: "getf c now key w = ((entry, found), w1)"
    by (metis surj_pair)
  show ?case
    using miss0 Cons.IH [OF rest, of "Suc i"] g by simp
qed

lemma scan_loop_first_hit:
  "k < length cs \<Longrightarrow> \<forall>j<k. \<not> snd (answer getf now key cs w j) \<Longrightarrow>
   answer getf now key cs w k = (entry, True) \<Longrightarrow>
   scan_loop getf mc now key i cs w =
     (case (if i + k > 0 \<and> enablePropagation mc
            then propagateToEarlierCaches mc now key entry (i + k)
                   (consulted getf now key (take (Suc k) cs) w)
            else Inr (consulted getf now key (take (Suc k) cs) w)) of
        Inl p \<Rightarrow> Inl p
      | Inr w2 \<Rightarrow>
          Inr (\<lparr>Entry = entry, Found = True, Level = CacheLevelFromIndex (int (i + k))\<rparr>, w2))"
proof (induction cs arbitrary: i w k)
  case Nil
  then show ?case by simp
next
  case (Cons c cs)
  show ?case
  proof (cases k)
    case 0
    obtain w1 where g: "getf c now key w = ((entry, True), w1)"
      using Cons.prems 0 by (metis answer_0 fst_conv surj_pair)
    show ?thesis
      using g 0 by (simp split: sum.splits)
  next
    case (Suc k')
    with Cons.prems have miss0: "\<not> snd (fst (getf c now key w))"
      by (metis answer_0 zero_less_Suc)
    have k': "k' < length cs" using Cons.prems Suc by simp
    have rest: "\<forall>j<k'. \<not> snd (answer getf now key cs (snd (getf c now key w)) j)"
    proof (intro allI impI)
      fix j assume "j < k'"
      then have "Suc j < k" using Suc by simp
      with Cons.prems have "\<not> snd (answer getf now key (c # cs) w (Suc j))" by blast
      then show "\<not> snd (answer getf now key cs (snd (getf c now key w)) j)" by simp
    qed
    have hit: "answer getf now key cs (snd (getf c now key w)) k' = (entry, True)"
      using Cons.prems Suc by simp
    obtain entry0 found0 w1 where g: "getf c now key w = ((entry0, found0), w1)"
      by (metis surj_pair)
    show ?thesis
      using miss0 Cons.IH [OF k' rest hit, of "Suc i"] Suc g
      by (simp cong: sum.case_cong)
  qed
qed

lemma propagate_loop_written:
  "n \<le> length (caches mc) \<Longrightarrow>
   propagate_loop mc now key e ttl n i w =
     Inr (written now key (Data e) ttl (drop i (take n (caches mc))) w)"
proof (induction "n - i" arbitrary: i w)
  case 0
  then show ?case
    by (simp add: propagate_loop.simps [of mc now key e ttl n i w] written_def)
next
  case (Suc d)
  then have lt: "i < n" and len: "i < length (caches mc)" by simp_all
  have d: "d = n - Suc i" using Suc by simp
  have step: "drop i (take n (caches mc)) = caches mc ! i # drop (Suc i) (take n (caches mc))"
    using lt len Suc.prems by (simp add: Cons_nth_drop_Suc [symmetric])
  show ?case
    using Suc.hyps(1) [OF d Suc.prems] lt len
    by (simp add: propagate_loop.simps [of mc now key e ttl n i w] step written_def)
qed

lemma propagateToEarlierCaches_promoted:
  "n \<le> length (caches mc) \<Longrightarrow>
   propagateToEarlierCaches mc now key entry n w = Inr (promoted mc now key entry n w)"
  by (cases entry)
     (auto simp: propagateToEarlierCaches_def promoted_def Let_def propagate_loop_written)

lemma written_indices:
  "n \<le> length cs \<Longrightarrow>
   written now key val ttl (take n cs) w = foldl (\<lambda>w j. Set (cs ! j) now key val ttl w) w [0..<n]"
proof -
  assume n: "n \<le> length cs"
  have "take n cs = map (\<lambda>j. cs ! j) [0..<n]"
    using n by (intro nth_equalityI) simp_all
  then show ?thesis
    by (simp add: written_def foldl_map)
qed

lemma Set_loop_written: "Set_loop now key val ttl cs w = written now key val ttl cs w"
  by (induction cs arbitrary: w) (simp_all add: written_def)

lemma Delete_loop_foldl: "Delete_loop key cs w = foldl (\<lambda>w c. Delete c key w) w cs"
  by (induction cs arbitrary: w) simp_all

lemma foldl_indices:
  "foldl (\<lambda>w c. f c w) w cs = foldl (\<lambda>w j. f (cs ! j) w) w [0..<length cs]"
proof -
  have "cs = map (\<lambda>j. cs ! j) [0..<length cs]"
    by (simp add: map_nth)
  then have "foldl (\<lambda>w c. f c w) w cs = foldl (\<lambda>w c. f c w) w (map (\<lambda>j. cs ! j) [0..<length cs])"
    by simp
  then show ?thesis
    by (simp add: foldl_map)
qed

lemma CacheLevelFromIndex_not_Miss: "CacheLevelFromIndex i \<noteq> CacheLevelMiss"
  by (simp add: CacheLevelFromIndex_def CacheLevelL1_def CacheLevelL2_def CacheLevelMiss_def)

lemma scan_first_hit:
  assumes "i < length (caches mc)"
    and "\<forall>j<i. \<not> snd (answer getf now key (caches mc) w j)"
    and "answer getf now key (caches mc) w i = (entry, True)"
  shows "scan_loop getf mc now key 0 (caches mc) w =
     Inr (\<lparr>Entry = entry, Found = True, Level = CacheLevelFromIndex (int i)\<rparr>,
          (if 0 < i \<and> enablePropagation mc
           then promoted mc now key entry i (consulted getf now key (take (Suc i) (caches mc)) w)
           else consulted getf now key (take (Suc i) (caches mc)) w))"
  using scan_loop_first_hit [OF assms, of mc 0] assms(1)
  by (simp add: propagateToEarlierCaches_promoted)

lemma scan_loop_disabled:
  "\<not> enablePropagation mc \<Longrightarrow>
   \<exists>n\<le>length cs. \<exists>res. scan_loop getf mc now key i cs w =
      Inr (res, consulted getf now key (take n cs) w)"
proof (induction cs arbitrary: i w)
  case Nil
  then show ?case by simp
next
  case (Cons c cs)
  obtain entry found w1 where g: "getf c now key w = ((entry, found), w1)"
    by (metis surj_pair)
  show ?case
  proof (cases found)
    case True
    have "scan_loop getf mc now key i (c # cs) w =
        Inr (\<lparr>Entry = entry, Found = True, Level = CacheLevelFromIndex (int i)\<rparr>,
             consulted getf now key (take (Suc 0) (c # cs)) w)"
      using g True Cons.prems by simp
    then show ?thesis
      by (intro exI [of _ "Suc 0"]) auto
  next
    case False
    from Cons.IH [OF Cons.prems, of "Suc i" w1]
    obtain n res where n: "n \<le> length cs"
      and r: "scan_loop getf mc now key (Suc i) cs w1 = Inr (res, consulted getf now key (take n cs) w1)"
      by blast
    have "scan_loop getf mc now key i (c # cs) w =
        Inr (res, consulted getf now key (take (Suc n) (c # cs)) w)"
      using g False r by simp
    then show ?thesis
      using n by (intro exI [of _ "Suc n"]) auto
  qed
qed

lemma scan_loop_returns:
  "i + length cs \<le> length (caches mc) \<Longrightarrow> \<exists>r. scan_loop getf mc now key i cs w = Inr r"
proof (induction cs arbitrary: i w)
  case Nil
  then show ?case by simp
next
  case (Cons c cs)
  obtain entry found w1 where g: "getf c now key w = ((entry, found), w1)"
    by (metis surj_pair)
  show ?case
  proof (cases found)
    case True
    have "i \<le> length (caches mc)" using Cons.prems by simp
    then show ?thesis
      using g True by (simp add: propagateToEarlierCaches_promoted)
  next
    case False
    have "Suc i + length cs \<le> length (caches mc)" using Cons.prems by simp
    from Cons.IH [OF this, of w1] show ?thesis
      using g False by simp
  qed
qed

lemma GetWithLevel_returns: "\<exists>r. GetWithLevel mc now key w = Inr r"
  using scan_loop_returns [of 0 "caches mc" mc Get now key w]
  by (simp add: GetWithLevel_def GetWithLevel_loop_scan)

lemma GetStaleWithLevel_returns: "\<exists>r. GetStaleWithLevel mc now key w = Inr r"
  using scan_loop_returns [of 0 "caches mc" mc GetStale now key w]
  by (simp add: GetStaleWithLevel_def GetStaleWithLevel_loop_scan)

lemma scan_first_hit_returns:
  assumes "i < length (caches mc)"
    and "\<forall>j<i. \<not> snd (answer getf now key (caches mc) w j)"
    and "answer getf now key (caches mc) w i = (entry, True)"
  shows "\<exists>w2. (if 0 < i \<and> enablePropagation mc
               then propagateToEarlierCaches mc now key entry i
                      (consulted getf now key (take (Suc i) (caches mc)) w)
               else Inr (consulted getf now key (take (Suc i) (caches mc)) w)) = Inr w2 \<and>
              scan_loop getf mc now key 0 (caches mc) w =
                Inr (\<lparr>Entry = entry, Found = True, Level = CacheLevelFromIndex (int i)\<rparr>, w2)"
  using scan_first_hit [OF assms] assms(1)
  by (simp add: propagateToEarlierCaches_promoted)

text \<open>
  C3. With at least one tier, \<open>GetWithLevel\<close> and \<open>GetStaleWithLevel\<close> always return, and
  they ask the tiers in ascending order. When tier \<open>i\<close> is the first to report found, the
  result is its entry with \<open>Found = True\<close> and the level of index \<open>i\<close> (which is not
  \<open>MISS\<close>, and not the level of another index), and the state is the one after asking tiers
  \<open>0, \<dots>, i\<close> only, followed by the promotion when it is due, which returns: no tier after
  \<open>i\<close> is asked. When every tier misses, the result is no entry, \<open>Found = False\<close> and the
  level \<open>MISS\<close>.
\<close>

theorem C3_first_hit_wins:
  assumes "caches mc \<noteq> []"
  shows
    "(i < length (caches mc) \<and> (\<forall>j<i. \<not> snd (answer Get now key (caches mc) w j)) \<and>
      answer Get now key (caches mc) w i = (entry, True) \<longrightarrow>
      (\<exists>w2. (if 0 < i \<and> enablePropagation mc
             then propagateToEarlierCaches mc now key entry i
                    (consulted Get now key (take (Suc i) (caches mc)) w)
             else Inr (consulted Get now key (take (Suc i) (caches mc)) w)) = Inr w2 \<and>
            GetWithLevel mc now key w =
              Inr (\<lparr>Entry = entry, Found = True, Level = CacheLevelFromIndex (int i)\<rparr>, w2))) \<and>
     ((\<forall>j<length (caches mc). \<not> snd (answer Get now key (caches mc) w j)) \<longrightarrow>
      GetWithLevel mc now key w =
        Inr (\<lparr>Entry = None, Found = False, Level = CacheLevelMiss\<rparr>,
             consulted Get now key (caches mc) w)) \<and>
     (i < length (caches mc) \<and> (\<forall>j<i. \<not> snd (answer GetStale now key (caches mc) w j)) \<and>
      answer GetStale now key (caches mc) w i = (entry, True) \<longrightarrow>
      (\<exists>w2. (if 0 < i \<and> enablePropagation mc
             then propagateToEarlierCaches mc now key entry i
                    (consulted GetStale now key (take (Suc i) (caches mc)) w)
             else Inr (consulted GetStale now key (take (Suc i) (caches mc)) w)) = Inr w2 \<and>
            GetStaleWithLevel mc now key w =
              Inr (\<lparr>Entry = entry, Found = True, Level = CacheLevelFromIndex (int i)\<rparr>, w2))) \<and>
     ((\<forall>j<length (caches mc). \<not> snd (answer GetStale now key (caches mc) w j)) \<longrightarrow>
      GetStaleWithLevel mc now key w =
        Inr (\<lparr>Entry = None, Found = False, Level = CacheLevelMiss\<rparr>,
             consulted GetStale now key (caches mc) w)) \<and>
     CacheLevelFromIndex (int i) \<noteq> CacheLevelMiss \<and>
     (CacheLevelFromIndex (int i) = CacheLevelFromIndex (int i') \<longrightarrow> i = i') \<and>
     (\<exists>r. GetWithLevel mc now key w = Inr r) \<and>
     (\<exists>r. GetStaleWithLevel mc now key w = Inr r)"
proof (intro conjI impI)
  assume "i < length (caches mc) \<and> (\<forall>j<i. \<not> snd (answer Get now key (caches mc) w j)) \<and>
      answer Get now key (caches mc) w i = (entry, True)"
  then show "\<exists>w2. (if 0 < i \<and> enablePropagation mc
             then propagateToEarlierCaches mc now key entry i
                    (consulted Get now key (take (Suc i) (caches mc)) w)
             else Inr (consulted Get now key (take (Suc i) (caches mc)) w)) = Inr w2 \<and>
            GetWithLevel mc now key w =
              Inr (\<lparr>Entry = entry, Found = True, Level = CacheLevelFromIndex (int i)\<rparr>, w2)"
    using assms scan_first_hit_returns [of i mc Get now key w entry]
    by (simp add: GetWithLevel_def GetWithLevel_loop_scan)
next
  assume "\<forall>j<length (caches mc). \<not> snd (answer Get now key (caches mc) w j)"
  then show "GetWithLevel mc now key w =
        Inr (\<lparr>Entry = None, Found = False, Level = CacheLevelMiss\<rparr>,
             consulted Get now key (caches mc) w)"
    using assms by (simp add: GetWithLevel_def GetWithLevel_loop_scan scan_loop_all_miss)
next
  assume "i < length (caches mc) \<and> (\<forall>j<i. \<not> snd (answer GetStale now key (caches mc) w j)) \<and>
      answer GetStale now key (caches mc) w i = (entry, True)"
  then show "\<exists>w2. (if 0 < i \<and> enablePropagation mc
             then propagateToEarlierCaches mc now key entry i
                    (consulted GetStale now key (take (Suc i) (caches mc)) w)
             else Inr (consulted GetStale now key (take (Suc i) (caches mc)) w)) = Inr w2 \<and>
            GetStaleWithLevel mc now key w =
              Inr (\<lparr>Entry = entry, Found = True, Level = CacheLevelFromIndex (int i)\<rparr>, w2)"
    using assms scan_first_hit_returns [of i mc GetStale now key w entry]
    by (simp add: GetStaleWithLevel_def GetStaleWithLevel_loop_scan)
next
  assume "\<forall>j<length (caches mc). \<not> snd (answer GetStale now key (caches mc) w j)"
  then show "GetStaleWithLevel mc now key w =
        Inr (\<lparr>Entry = None, Found = False, Level = CacheLevelMiss\<rparr>,
             consulted GetStale now key (caches mc) w)"
    using assms
    by (simp add: GetStaleWithLevel_def GetStaleWithLevel_loop_scan scan_loop_all_miss)
next
  show "CacheLevelFromIndex (int i) \<noteq> CacheLevelMiss"
    by (rule CacheLevelFromIndex_not_Miss)
next
  assume "CacheLevelFromIndex (int i) = CacheLevelFromIndex (int i')"
  then show "i = i'"
    using CacheLevelFromIndex_inj [of "int i" "int i'"] by simp
next
  show "\<exists>r. GetWithLevel mc now key w = Inr r"
    by (rule GetWithLevel_returns)
next
  show "\<exists>r. GetStaleWithLevel mc now key w = Inr r"
    by (rule GetStaleWithLevel_returns)
qed

theorem C3_first_hit_wins_witness:
  "[missTier 0, hitTier 1, hitTier 2] \<noteq> [] \<and>
   GetWithLevel
     \<lparr>caches = [missTier 0, hitTier 1, hitTier 2], logger = MockLogger,
      enablePropagation = False\<rparr> 110 ''k'' []
   = Inr (\<lparr>Entry = Some testEntry, Found = True, Level = ''L2''\<rparr>,
          [GetCall 0 ''k'', GetCall 1 ''k'']) \<and>
   GetStaleWithLevel
     \<lparr>caches = [missTier 0, hitTier 1, hitTier 2], logger = MockLogger,
      enablePropagation = False\<rparr> 110 ''k'' []
   = Inr (\<lparr>Entry = Some testEntry, Found = True, Level = ''L2''\<rparr>,
          [GetStaleCall 0 ''k'', GetStaleCall 1 ''k'']) \<and>
   GetWithLevel
     \<lparr>caches = [missTier 0, hitTier 1, hitTier 2], logger = MockLogger,
      enablePropagation = True\<rparr> 110 ''k'' []
   = Inr (\<lparr>Entry = Some testEntry, Found = True, Level = ''L2''\<rparr>,
          [GetCall 0 ''k'', GetCall 1 ''k'',
           SetCall 0 ''k'' ''test-value'' \<lparr>Fresh = 50 * Second, Stale = 30 * Second\<rparr>]) \<and>
   GetStaleWithLevel
     \<lparr>caches = [missTier 0, hitTier 1, hitTier 2], logger = MockLogger,
      enablePropagation = True\<rparr> 110 ''k'' []
   = Inr (\<lparr>Entry = Some testEntry, Found = True, Level = ''L2''\<rparr>,
          [GetStaleCall 0 ''k'', GetStaleCall 1 ''k'',
           SetCall 0 ''k'' ''test-value'' \<lparr>Fresh = 50 * Second, Stale = 30 * Second\<rparr>]) \<and>
   GetWithLevel
     \<lparr>caches = [missTier 0, missTier 1], logger = MockLogger, enablePropagation = True\<rparr>
     110 ''k'' []
   = Inr (\<lparr>Entry = None, Found = False, Level = ''MISS''\<rparr>, [GetCall 0 ''k'', GetCall 1 ''k'']) \<and>
   GetStaleWithLevel
     \<lparr>caches = [missTier 0, missTier 1], logger = MockLogger, enablePropagation = True\<rparr>
     110 ''k'' []
   = Inr (\<lparr>Entry = None, Found = False, Level = ''MISS''\<rparr>,
          [GetStaleCall 0 ''k'', GetStaleCall 1 ''k''])"
  using C3_first_hit_wins
    [where mc = "\<lparr>caches = [missTier 0, hitTier 1, hitTier 2], logger = MockLogger,
                  enablePropagation = False\<rparr>"
       and i = 1 and now = 110 and key = "''k''" and w = "[]" and entry = "Some testEntry"
       and i' = 1]
    C3_first_hit_wins
    [where mc = "\<lparr>caches = [missTier 0, hitTier 1, hitTier 2], logger = MockLogger,
                  enablePropagation = True\<rparr>"
       and i = 1 and now = 110 and key = "''k''" and w = "[]" and entry = "Some testEntry"
       and i' = 1]
    C3_first_hit_wins
    [where mc = "\<lparr>caches = [missTier 0, missTier 1], logger = MockLogger,
                  enablePropagation = True\<rparr>"
       and i = 0 and now = 110 and key = "''k''" and w = "[]" and entry = None and i' = 0]
  by (simp add: missTier_def hitTier_def MockCache_def answer_def CacheLevelFromIndex_def
      CacheLevelL2_def CacheLevelMiss_def less_Suc_eq propagateToEarlierCaches_def
      propagate_loop.simps IsExpired_def RemainingTTL_def testEntry_def wrap64_def Second_def)

lemma propagate_loop_panics:
  "length (caches mc) < n \<Longrightarrow> i \<le> length (caches mc) \<Longrightarrow>
   propagate_loop mc now key e ttl n i w = Inl IndexOutOfRange"
proof (induction "length (caches mc) - i" arbitrary: i w)
  case 0
  then have "i = length (caches mc)" by simp
  then show ?case
    using "0.prems" by (subst propagate_loop.simps) simp
next
  case (Suc d)
  then have lt: "i < length (caches mc)" by simp
  have d: "d = length (caches mc) - Suc i" using Suc.hyps(2) by simp
  have le: "Suc i \<le> length (caches mc)" using lt by simp
  show ?case
    using Suc.hyps(1) [OF d Suc.prems(1) le] lt Suc.prems(1)
    by (subst propagate_loop.simps) simp
qed

lemma RemainingTTL_guard:
  assumes "in_Duration (StaleAt e - now)" and "in_Duration (ExpiresAt e - StaleAt e)"
  shows "(Fresh (RemainingTTL e now) \<le> 0 \<and> Stale (RemainingTTL e now) \<le> 0) \<longleftrightarrow>
         (Fresh (RemainingTTL e now) = 0 \<and> Stale (RemainingTTL e now) = 0)"
proof -
  have "0 \<le> max 0 (StaleAt e - now) * Second" "0 \<le> max 0 (ExpiresAt e - StaleAt e) * Second"
    using Second_pos by simp_all
  then have "0 \<le> Fresh (RemainingTTL e now)" "0 \<le> Stale (RemainingTTL e now)"
    using assms by (simp_all add: RemainingTTL_Fresh RemainingTTL_Stale)
  then show ?thesis by auto
qed

text \<open>
  C4, as the code has it. Promotion of an entry found at tier \<open>foundAtIndex\<close>: when the entry
  is expired at the current time, or neither part of its remaining TTL is positive, no tier
  is written; otherwise \<open>Set\<close> is called, with the entry's data and its remaining TTL, on the
  tiers \<open>0, \<dots>, foundAtIndex - 1\<close> in this order, and on no other tier. (An index beyond the
  number of tiers, which no caller passes, would panic.) Where the differences
  \<open>staleAt - now\<close> and \<open>expiresAt - staleAt\<close> fit \<^verbatim>\<open>int64\<close> and are at most 9223372036
  seconds, neither part is positive exactly when both are zero.
\<close>

theorem C4_propagate:
  "propagateToEarlierCaches mc now key (Some e) foundAtIndex w =
    (if IsExpired e now \<or> (Fresh (RemainingTTL e now) \<le> 0 \<and> Stale (RemainingTTL e now) \<le> 0)
     then Inr w
     else if foundAtIndex \<le> length (caches mc)
     then Inr (foldl (\<lambda>w j. Set (caches mc ! j) now key (Data e) (RemainingTTL e now) w) w
                [0..<foundAtIndex])
     else Inl IndexOutOfRange) \<and>
   (in_Duration (StaleAt e - now) \<and> in_Duration (ExpiresAt e - StaleAt e) \<longrightarrow>
      ((Fresh (RemainingTTL e now) \<le> 0 \<and> Stale (RemainingTTL e now) \<le> 0) \<longleftrightarrow>
       (Fresh (RemainingTTL e now) = 0 \<and> Stale (RemainingTTL e now) = 0)))"
proof (intro conjI impI)
  show "propagateToEarlierCaches mc now key (Some e) foundAtIndex w =
    (if IsExpired e now \<or> (Fresh (RemainingTTL e now) \<le> 0 \<and> Stale (RemainingTTL e now) \<le> 0)
     then Inr w
     else if foundAtIndex \<le> length (caches mc)
     then Inr (foldl (\<lambda>w j. Set (caches mc ! j) now key (Data e) (RemainingTTL e now) w) w
                [0..<foundAtIndex])
     else Inl IndexOutOfRange)"
  proof (cases "foundAtIndex \<le> length (caches mc)")
    case True
    then show ?thesis
      by (simp add: propagateToEarlierCaches_promoted promoted_def written_indices)
  next
    case False
    then have "length (caches mc) < foundAtIndex" by simp
    then have "propagate_loop mc now key e (RemainingTTL e now) foundAtIndex 0 w
        = Inl IndexOutOfRange"
      by (rule propagate_loop_panics) simp
    then show ?thesis
      using False by (simp add: propagateToEarlierCaches_def Let_def)
  qed
next
  assume "in_Duration (StaleAt e - now) \<and> in_Duration (ExpiresAt e - StaleAt e)"
  then show "(Fresh (RemainingTTL e now) \<le> 0 \<and> Stale (RemainingTTL e now) \<le> 0) \<longleftrightarrow>
       (Fresh (RemainingTTL e now) = 0 \<and> Stale (RemainingTTL e now) = 0)"
    by (intro RemainingTTL_guard) simp_all
qed

theorem C4_propagate_witness:
  "(2::nat) \<le> length [missTier 0, missTier 1, missTier 2] \<and>
   in_Duration (StaleAt testEntry - 110) \<and> in_Duration (ExpiresAt testEntry - StaleAt testEntry) \<and>
   propagateToEarlierCaches
     \<lparr>caches = [missTier 0, missTier 1, missTier 2], logger = MockLogger,
      enablePropagation = True\<rparr>
     110 ''k'' (Some testEntry) 2 []
     = Inr [SetCall 0 ''k'' ''test-value'' \<lparr>Fresh = 50 * Second, Stale = 30 * Second\<rparr>,
            SetCall 1 ''k'' ''test-value'' \<lparr>Fresh = 50 * Second, Stale = 30 * Second\<rparr>] \<and>
   propagateToEarlierCaches
     \<lparr>caches = [missTier 0, missTier 1, missTier 2], logger = MockLogger,
      enablePropagation = True\<rparr>
     195 ''k'' (Some testEntry) 2 []
     = Inr [] \<and>
   propagateToEarlierCaches
     \<lparr>caches = [missTier 0, missTier 1, missTier 2], logger = MockLogger,
      enablePropagation = True\<rparr>
     100 ''k'' (Some \<lparr>Data = ''test-value'', ExpiresAt = 100, StaleAt = 100, CreatedAt = 100\<rparr>) 2 []
     = Inr []"
  using C4_propagate
    [where mc = "\<lparr>caches = [missTier 0, missTier 1, missTier 2], logger = MockLogger,
                  enablePropagation = True\<rparr>"
       and foundAtIndex = 2 and now = 110 and key = "''k''" and e = testEntry and w = "[]"]
    C4_propagate
    [where mc = "\<lparr>caches = [missTier 0, missTier 1, missTier 2], logger = MockLogger,
                  enablePropagation = True\<rparr>"
       and foundAtIndex = 2 and now = 195 and key = "''k''" and e = testEntry and w = "[]"]
    C4_propagate
    [where mc = "\<lparr>caches = [missTier 0, missTier 1, missTier 2], logger = MockLogger,
                  enablePropagation = True\<rparr>"
       and foundAtIndex = 2 and now = 100 and key = "''k''" and w = "[]"
       and e = "\<lparr>Data = ''test-value'', ExpiresAt = 100, StaleAt = 100, CreatedAt = 100\<rparr>"]
  by (simp add: missTier_def MockCache_def testEntry_def IsExpired_def RemainingTTL_def
      wrap64_def in_Duration_def Second_def eval_nat_numeral)

text \<open>
  C4 as stated writes the earlier tiers whenever the entry is not expired and the parts of
  its remaining TTL are not both zero. An entry that goes stale and expires 9223372037
  seconds after \<open>now\<close> is not expired and has a negative fresh part and a stale part of
  zero: no tier is written.
\<close>

theorem C4_negative_remaining_counterexample:
  "\<not> IsExpired \<lparr>Data = ''test-value'', ExpiresAt = 9223372137, StaleAt = 9223372137, CreatedAt = 100\<rparr> 100 \<and>
   RemainingTTL \<lparr>Data = ''test-value'', ExpiresAt = 9223372137, StaleAt = 9223372137, CreatedAt = 100\<rparr> 100
     = \<lparr>Fresh = - 9223372036709551616, Stale = 0\<rparr> \<and>
   \<not> (Fresh (RemainingTTL \<lparr>Data = ''test-value'', ExpiresAt = 9223372137, StaleAt = 9223372137, CreatedAt = 100\<rparr> 100) = 0 \<and>
      Stale (RemainingTTL \<lparr>Data = ''test-value'', ExpiresAt = 9223372137, StaleAt = 9223372137, CreatedAt = 100\<rparr> 100) = 0) \<and>
   propagateToEarlierCaches
     \<lparr>caches = [missTier 0, missTier 1, missTier 2], logger = MockLogger,
      enablePropagation = True\<rparr>
     100 ''k''
     (Some \<lparr>Data = ''test-value'', ExpiresAt = 9223372137, StaleAt = 9223372137, CreatedAt = 100\<rparr>)
     2 []
     = Inr []"
  by (simp add: propagateToEarlierCaches_def IsExpired_def RemainingTTL_def wrap64_def Second_def)

text \<open>
  C7. With at least one tier, \<open>Set\<close> of the orchestrator calls \<open>Set\<close> with the same key, data
  and TTL on every tier \<open>0, \<dots>, N - 1\<close>, and \<open>Delete\<close> calls \<open>Delete\<close> on every tier; a
  backend method returns nothing the loop could stop on, and the loop looks at no tier's
  contents.
\<close>

theorem C7_fan_out:
  assumes "caches mc \<noteq> []"
  shows "MultiCache_Set mc now key val ttl w =
           foldl (\<lambda>w i. Set (caches mc ! i) now key val ttl w) w [0..<length (caches mc)] \<and>
         MultiCache_Delete mc key w =
           foldl (\<lambda>w i. Delete (caches mc ! i) key w) w [0..<length (caches mc)]"
proof -
  have "Set_loop now key val ttl (caches mc) w =
      foldl (\<lambda>w i. Set (caches mc ! i) now key val ttl w) w [0..<length (caches mc)]"
    using written_indices [of "length (caches mc)" "caches mc" now key val ttl w]
    by (simp add: Set_loop_written)
  moreover have "Delete_loop key (caches mc) w =
      foldl (\<lambda>w i. Delete (caches mc ! i) key w) w [0..<length (caches mc)]"
    using foldl_indices [of "\<lambda>c. Delete c key" w "caches mc"]
    by (simp add: Delete_loop_foldl)
  ultimately show ?thesis
    using assms by (simp add: MultiCache_Set_def MultiCache_Delete_def)
qed

theorem C7_fan_out_witness:
  "[missTier 0, missTier 1] \<noteq> [] \<and>
   MultiCache_Set
     \<lparr>caches = [missTier 0, missTier 1], logger = MockLogger, enablePropagation = True\<rparr>
     100 ''k'' ''test-value'' testTTL []
     = [SetCall 0 ''k'' ''test-value'' testTTL, SetCall 1 ''k'' ''test-value'' testTTL] \<and>
   MultiCache_Delete
     \<lparr>caches = [missTier 0, missTier 1], logger = MockLogger, enablePropagation = True\<rparr>
     ''k'' []
     = [DeleteCall 0 ''k'', DeleteCall 1 ''k''] \<and>
   [L1_tier testCodec, L2_tier testCodec] \<noteq> [] \<and>
   entries (cache (fst (MultiCache_Set
       \<lparr>caches = [L1_tier testCodec, L2_tier testCodec], logger = NoopLogger,
        enablePropagation = True\<rparr>
       100 ''k'' ''test-value'' testTTL (fullBigCache, keyDBHolding Map.empty)))) ''k'' = None \<and>
   db (client (snd (MultiCache_Set
       \<lparr>caches = [L1_tier testCodec, L2_tier testCodec], logger = NoopLogger,
        enablePropagation = True\<rparr>
       100 ''k'' ''test-value'' testTTL (fullBigCache, keyDBHolding Map.empty)))) ''k''
     = Some (''payload'', 90 * Second)"
  using C7_fan_out
    [of "\<lparr>caches = [missTier 0, missTier 1], logger = MockLogger, enablePropagation = True\<rparr>"
        100 "''k''" "''test-value''" testTTL "[]"]
    C7_fan_out
    [of "\<lparr>caches = [L1_tier testCodec, L2_tier testCodec], logger = NoopLogger,
          enablePropagation = True\<rparr>"
        100 "''k''" "''test-value''" testTTL "(fullBigCache, keyDBHolding Map.empty)"]
  by (simp add: missTier_def MockCache_def L1_tier_def L2_tier_def BigCache_Set_def
      KeyDBCache_Set_def bigcache_Set_def client_Set_def testCodec_def table_codec_def
      testEntry_def fullBigCache_def keyDBHolding_def testTTL_seconds testTTL_total)

lemma BigCache_Get_miss_absent:
  "fst (BigCache_Get js now key bc) = (None, False) \<Longrightarrow>
   entries (cache (snd (BigCache_Get js now key bc))) key = None"
  by (auto simp: BigCache_Get_def bigcache_Get_def bigcache_Delete_def
      split: option.splits if_splits)

lemma BigCache_Get_absent:
  "entries (cache bc) key = None \<Longrightarrow> BigCache_Get js now key bc = ((None, False), bc)"
  by (simp add: BigCache_Get_def bigcache_Get_def)

lemma KeyDBCache_Get_hit_state:
  "fst (KeyDBCache_Get js now key kc) = (Some e, True) \<Longrightarrow>
   KeyDBCache_Get js now key kc = ((Some e, True), kc)"
  by (auto simp: KeyDBCache_Get_def split: sum.splits option.splits if_splits)

lemma L1_L2_disabled:
  assumes l1: "fst (BigCache_Get js now key bc) = (None, False)"
    and l2: "fst (KeyDBCache_Get js now key kc) = (Some e, True)"
  shows "GetWithLevel \<lparr>caches = [L1_tier js, L2_tier js], logger = lg, enablePropagation = False\<rparr>
           now key (bc, kc) =
         Inr (\<lparr>Entry = Some e, Found = True, Level = CacheLevelL2\<rparr>,
              (snd (BigCache_Get js now key bc), kc))"
proof -
  obtain bc' where g1: "BigCache_Get js now key bc = ((None, False), bc')"
    using l1 by (metis fst_conv surj_pair)
  show ?thesis
    using g1 KeyDBCache_Get_hit_state [OF l2]
    by (simp add: GetWithLevel_def L1_tier_def L2_tier_def CacheLevelFromIndex_def)
qed

text \<open>
  C5. On a hit at tier \<open>i\<close>, \<open>GetWithLevel\<close> and \<open>GetStaleWithLevel\<close> alike run the promotion
  exactly when \<open>i > 0\<close> and propagation is enabled; when every tier misses, they write to no
  tier. With propagation disabled a read only
  asks tiers and calls \<open>Set\<close> on none. So with the in-process backend as tier 0 and the
  networked backend as tier 1, propagation disabled: when tier 0 misses the key and tier 1
  holds it, \<open>GetWithLevel\<close> reports the hit at tier 1 and tier 0 still misses the key
  afterwards.
\<close>

theorem C5_propagation_gate:
  "(i < length (caches mc) \<and> (\<forall>j<i. \<not> snd (answer Get now key (caches mc) w j)) \<and>
    answer Get now key (caches mc) w i = (entry, True) \<longrightarrow>
    GetWithLevel mc now key w =
      (case (if 0 < i \<and> enablePropagation mc
             then propagateToEarlierCaches mc now key entry i
                    (consulted Get now key (take (Suc i) (caches mc)) w)
             else Inr (consulted Get now key (take (Suc i) (caches mc)) w)) of
         Inl p \<Rightarrow> Inl p
       | Inr w2 \<Rightarrow>
           Inr (\<lparr>Entry = entry, Found = True, Level = CacheLevelFromIndex (int i)\<rparr>, w2))) \<and>
   (i < length (caches mc) \<and> (\<forall>j<i. \<not> snd (answer GetStale now key (caches mc) w j)) \<and>
    answer GetStale now key (caches mc) w i = (entry, True) \<longrightarrow>
    GetStaleWithLevel mc now key w =
      (case (if 0 < i \<and> enablePropagation mc
             then propagateToEarlierCaches mc now key entry i
                    (consulted GetStale now key (take (Suc i) (caches mc)) w)
             else Inr (consulted GetStale now key (take (Suc i) (caches mc)) w)) of
         Inl p \<Rightarrow> Inl p
       | Inr w2 \<Rightarrow>
           Inr (\<lparr>Entry = entry, Found = True, Level = CacheLevelFromIndex (int i)\<rparr>, w2))) \<and>
   (caches mc \<noteq> [] \<and> (\<forall>j<length (caches mc). \<not> snd (answer Get now key (caches mc) w j)) \<longrightarrow>
    GetWithLevel mc now key w =
      Inr (\<lparr>Entry = None, Found = False, Level = CacheLevelMiss\<rparr>,
           consulted Get now key (caches mc) w)) \<and>
   (caches mc \<noteq> [] \<and>
    (\<forall>j<length (caches mc). \<not> snd (answer GetStale now key (caches mc) w j)) \<longrightarrow>
    GetStaleWithLevel mc now key w =
      Inr (\<lparr>Entry = None, Found = False, Level = CacheLevelMiss\<rparr>,
           consulted GetStale now key (caches mc) w)) \<and>
   (\<not> enablePropagation mc \<and> caches mc \<noteq> [] \<longrightarrow>
    (\<exists>n\<le>length (caches mc). \<exists>res.
       GetWithLevel mc now key w = Inr (res, consulted Get now key (take n (caches mc)) w)) \<and>
    (\<exists>n\<le>length (caches mc). \<exists>res.
       GetStaleWithLevel mc now key w =
         Inr (res, consulted GetStale now key (take n (caches mc)) w))) \<and>
   (fst (BigCache_Get js now key bc) = (None, False) \<and>
    fst (KeyDBCache_Get js now key kc) = (Some e, True) \<longrightarrow>
    GetWithLevel \<lparr>caches = [L1_tier js, L2_tier js], logger = lg, enablePropagation = False\<rparr>
      now key (bc, kc) =
      Inr (\<lparr>Entry = Some e, Found = True, Level = CacheLevelL2\<rparr>,
           (snd (BigCache_Get js now key bc), kc)) \<and>
    fst (BigCache_Get js now' key (snd (BigCache_Get js now key bc))) = (None, False))"
proof (intro conjI impI)
  assume h: "i < length (caches mc) \<and> (\<forall>j<i. \<not> snd (answer Get now key (caches mc) w j)) \<and>
    answer Get now key (caches mc) w i = (entry, True)"
  then have ne: "caches mc \<noteq> []" by auto
  show "GetWithLevel mc now key w =
      (case (if 0 < i \<and> enablePropagation mc
             then propagateToEarlierCaches mc now key entry i
                    (consulted Get now key (take (Suc i) (caches mc)) w)
             else Inr (consulted Get now key (take (Suc i) (caches mc)) w)) of
         Inl p \<Rightarrow> Inl p
       | Inr w2 \<Rightarrow>
           Inr (\<lparr>Entry = entry, Found = True, Level = CacheLevelFromIndex (int i)\<rparr>, w2))"
    using h ne scan_loop_first_hit [of i "caches mc" Get now key w entry mc 0]
    by (simp add: GetWithLevel_def GetWithLevel_loop_scan cong: sum.case_cong)
next
  assume h: "i < length (caches mc) \<and> (\<forall>j<i. \<not> snd (answer GetStale now key (caches mc) w j)) \<and>
    answer GetStale now key (caches mc) w i = (entry, True)"
  then have ne: "caches mc \<noteq> []" by auto
  show "GetStaleWithLevel mc now key w =
      (case (if 0 < i \<and> enablePropagation mc
             then propagateToEarlierCaches mc now key entry i
                    (consulted GetStale now key (take (Suc i) (caches mc)) w)
             else Inr (consulted GetStale now key (take (Suc i) (caches mc)) w)) of
         Inl p \<Rightarrow> Inl p
       | Inr w2 \<Rightarrow>
           Inr (\<lparr>Entry = entry, Found = True, Level = CacheLevelFromIndex (int i)\<rparr>, w2))"
    using h ne scan_loop_first_hit [of i "caches mc" GetStale now key w entry mc 0]
    by (simp add: GetStaleWithLevel_def GetStaleWithLevel_loop_scan cong: sum.case_cong)
next
  assume "caches mc \<noteq> [] \<and> (\<forall>j<length (caches mc). \<not> snd (answer Get now key (caches mc) w j))"
  then show "GetWithLevel mc now key w =
      Inr (\<lparr>Entry = None, Found = False, Level = CacheLevelMiss\<rparr>,
           consulted Get now key (caches mc) w)"
    by (simp add: GetWithLevel_def GetWithLevel_loop_scan scan_loop_all_miss)
next
  assume "caches mc \<noteq> [] \<and>
    (\<forall>j<length (caches mc). \<not> snd (answer GetStale now key (caches mc) w j))"
  then show "GetStaleWithLevel mc now key w =
      Inr (\<lparr>Entry = None, Found = False, Level = CacheLevelMiss\<rparr>,
           consulted GetStale now key (caches mc) w)"
    by (simp add: GetStaleWithLevel_def GetStaleWithLevel_loop_scan scan_loop_all_miss)
next
  assume h: "\<not> enablePropagation mc \<and> caches mc \<noteq> []"
  then show "\<exists>n\<le>length (caches mc). \<exists>res.
       GetWithLevel mc now key w = Inr (res, consulted Get now key (take n (caches mc)) w)"
    using scan_loop_disabled [of mc "caches mc" Get now key 0 w]
    by (simp add: GetWithLevel_def GetWithLevel_loop_scan)
next
  assume h: "\<not> enablePropagation mc \<and> caches mc \<noteq> []"
  then show "\<exists>n\<le>length (caches mc). \<exists>res.
       GetStaleWithLevel mc now key w =
         Inr (res, consulted GetStale now key (take n (caches mc)) w)"
    using scan_loop_disabled [of mc "caches mc" GetStale now key 0 w]
    by (simp add: GetStaleWithLevel_def GetStaleWithLevel_loop_scan)
next
  assume h: "fst (BigCache_Get js now key bc) = (None, False) \<and>
    fst (KeyDBCache_Get js now key kc) = (Some e, True)"
  then show "GetWithLevel \<lparr>caches = [L1_tier js, L2_tier js], logger = lg, enablePropagation = False\<rparr>
      now key (bc, kc) =
      Inr (\<lparr>Entry = Some e, Found = True, Level = CacheLevelL2\<rparr>,
           (snd (BigCache_Get js now key bc), kc))"
    by (simp add: L1_L2_disabled)
next
  assume h: "fst (BigCache_Get js now key bc) = (None, False) \<and>
    fst (KeyDBCache_Get js now key kc) = (Some e, True)"
  then have "entries (cache (snd (BigCache_Get js now key bc))) key = None"
    by (simp add: BigCache_Get_miss_absent)
  then show "fst (BigCache_Get js now' key (snd (BigCache_Get js now key bc))) = (None, False)"
    by (simp add: BigCache_Get_absent)
qed

theorem C5_propagation_gate_witness:
  "GetWithLevel
     \<lparr>caches = [missTier 0, hitTier 1], logger = MockLogger, enablePropagation = True\<rparr> 110 ''k'' []
   = Inr (\<lparr>Entry = Some testEntry, Found = True, Level = ''L2''\<rparr>,
          [GetCall 0 ''k'', GetCall 1 ''k'',
           SetCall 0 ''k'' ''test-value'' \<lparr>Fresh = 50 * Second, Stale = 30 * Second\<rparr>]) \<and>
   GetStaleWithLevel
     \<lparr>caches = [missTier 0, hitTier 1], logger = MockLogger, enablePropagation = True\<rparr> 170 ''k'' []
   = Inr (\<lparr>Entry = Some testEntry, Found = True, Level = ''L2''\<rparr>,
          [GetStaleCall 0 ''k'', GetStaleCall 1 ''k'',
           SetCall 0 ''k'' ''test-value'' \<lparr>Fresh = 0, Stale = 30 * Second\<rparr>]) \<and>
   fst (BigCache_Get testCodec 110 ''k'' (emptyBigCache 1048576)) = (None, False) \<and>
   fst (KeyDBCache_Get testCodec 110 ''k'' (keyDBHolding [''k'' \<mapsto> (''payload'', 90 * Second)]))
     = (Some testEntry, True) \<and>
   GetWithLevel
     \<lparr>caches = [L1_tier testCodec, L2_tier testCodec], logger = NoopLogger,
      enablePropagation = False\<rparr>
     110 ''k'' (emptyBigCache 1048576, keyDBHolding [''k'' \<mapsto> (''payload'', 90 * Second)])
   = Inr (\<lparr>Entry = Some testEntry, Found = True, Level = ''L2''\<rparr>,
          (emptyBigCache 1048576, keyDBHolding [''k'' \<mapsto> (''payload'', 90 * Second)])) \<and>
   fst (BigCache_Get testCodec 120 ''k'' (emptyBigCache 1048576)) = (None, False)"
  using C5_propagation_gate
    [where i = 1 and now = 110 and key = "''k''" and w = "[]" and entry = "Some testEntry"
       and mc = "\<lparr>caches = [missTier 0, hitTier 1], logger = MockLogger,
                  enablePropagation = True\<rparr>"
       and js = testCodec and bc = "emptyBigCache 1048576"
       and kc = "keyDBHolding [''k'' \<mapsto> (''payload'', 90 * Second)]"
       and e = testEntry and lg = NoopLogger and now' = 120]
    C5_propagation_gate
    [where i = 1 and now = 170 and key = "''k''" and w = "[]" and entry = "Some testEntry"
       and mc = "\<lparr>caches = [missTier 0, hitTier 1], logger = MockLogger,
                  enablePropagation = True\<rparr>"
       and js = testCodec and bc = "emptyBigCache 1048576"
       and kc = "keyDBHolding [''k'' \<mapsto> (''payload'', 90 * Second)]"
       and e = testEntry and lg = NoopLogger and now' = 120]
  by (simp add: missTier_def hitTier_def MockCache_def answer_def CacheLevelFromIndex_def
      CacheLevelL2_def propagateToEarlierCaches_def propagate_loop.simps IsExpired_def
      RemainingTTL_def
      testEntry_def testCodec_def table_codec_def emptyBigCache_def keyDBHolding_def
      BigCache_Get_def KeyDBCache_Get_def bigcache_Get_def client_Get_def wrap64_def
      Second_def)

text \<open>
  C10. With no tier configured, no operation of the orchestrator fails: \<open>GetWithLevel\<close> and
  \<open>GetStaleWithLevel\<close> return no entry, \<open>Found = False\<close> and the level \<open>MISS\<close>, so \<open>Get\<close> and
  \<open>GetStale\<close> return a miss; \<open>Set\<close> and \<open>Delete\<close> return after a warning to the logger, and
  no backend is called. A backend's \<open>Set\<close> whose serialization fails, or whose payload is
  longer than the in-process backend's maximum, leaves the store as it was, and returns
  like any other \<open>Set\<close>: the caller is told nothing.
\<close>

theorem C10_degrades:
  "(caches mc = [] \<longrightarrow>
      GetWithLevel mc now key w =
        Inr (\<lparr>Entry = None, Found = False, Level = CacheLevelMiss\<rparr>,
             Warn (logger mc) ''No caches available for get operation'' [''key'', key] w) \<and>
      GetStaleWithLevel mc now key w =
        Inr (\<lparr>Entry = None, Found = False, Level = CacheLevelMiss\<rparr>, w) \<and>
      MultiCache_Get mc now key w =
        Inr ((None, False),
             Warn (logger mc) ''No caches available for get operation'' [''key'', key] w) \<and>
      MultiCache_GetStale mc now key w = Inr ((None, False), w) \<and>
      MultiCache_Set mc now key val ttl w =
        Warn (logger mc) ''No caches available for set operation'' [''key'', key] w \<and>
      MultiCache_Delete mc key w =
        Warn (logger mc) ''No caches available for delete operation'' [''key'', key] w) \<and>
   (Marshal js \<lparr>Data = val,
               ExpiresAt = now + Seconds_int64 (Fresh ttl) + Seconds_int64 (Stale ttl),
               StaleAt = now + Seconds_int64 (Fresh ttl), CreatedAt = now\<rparr> = Inl err \<longrightarrow>
      cache (BigCache_Set js now key val ttl bc) = cache bc \<and>
      client (KeyDBCache_Set js now key val ttl kc) = client kc) \<and>
   (Marshal js \<lparr>Data = val,
               ExpiresAt = now + Seconds_int64 (Fresh ttl) + Seconds_int64 (Stale ttl),
               StaleAt = now + Seconds_int64 (Fresh ttl), CreatedAt = now\<rparr> = Inr data \<and>
    int (length data) > maxEntrySize bc \<longrightarrow>
      cache (BigCache_Set js now key val ttl bc) = cache bc)"
  by (simp add: GetWithLevel_def GetStaleWithLevel_def MultiCache_Get_def MultiCache_GetStale_def
      MultiCache_Set_def MultiCache_Delete_def BigCache_Set_def KeyDBCache_Set_def)


theorem C10_degrades_witness:
  "GetWithLevel \<lparr>caches = [], logger = MockLogger, enablePropagation = True\<rparr> 110 ''k'' []
   = Inr (\<lparr>Entry = None, Found = False, Level = ''MISS''\<rparr>,
          [WarnCall ''No caches available for get operation'' [''key'', ''k'']]) \<and>
   MultiCache_Get \<lparr>caches = [], logger = MockLogger, enablePropagation = True\<rparr> 110 ''k'' []
   = Inr ((None, False), [WarnCall ''No caches available for get operation'' [''key'', ''k'']]) \<and>
   MultiCache_Set \<lparr>caches = [], logger = MockLogger, enablePropagation = True\<rparr>
     110 ''k'' ''test-value'' testTTL []
   = [WarnCall ''No caches available for set operation'' [''key'', ''k'']] \<and>
   MultiCache_Delete \<lparr>caches = [], logger = MockLogger, enablePropagation = True\<rparr> ''k'' []
   = [WarnCall ''No caches available for delete operation'' [''key'', ''k'']] \<and>
   Marshal (table_codec []) testEntry = Inl ''json: unsupported value'' \<and>
   entries (cache (BigCache_Set (table_codec []) 100 ''k'' ''test-value'' testTTL
                     (emptyBigCache 1048576))) ''k'' = None \<and>
   db (client (KeyDBCache_Set (table_codec []) 100 ''k'' ''test-value'' testTTL
                 (keyDBHolding Map.empty))) ''k'' = None \<and>
   Marshal testCodec testEntry = Inr ''payload'' \<and>
   int (length ''payload'') > maxEntrySize (emptyBigCache 3) \<and>
   entries (cache (BigCache_Set testCodec 100 ''k'' ''test-value'' testTTL (emptyBigCache 3))) ''k''
     = None"
  using C10_degrades
    [where mc = "\<lparr>caches = [], logger = MockLogger, enablePropagation = True\<rparr>"
       and now = 110 and key = "''k''" and w = "[]" and val = "''test-value''" and ttl = testTTL
       and js = "table_codec []" and bc = "emptyBigCache 1048576" and kc = "keyDBHolding Map.empty"
       and err = "''json: unsupported value''" and data = "''payload''"]
    C10_degrades
    [where mc = "\<lparr>caches = [], logger = MockLogger, enablePropagation = True\<rparr>"
       and now = 100 and key = "''k''" and w = "[]" and val = "''test-value''" and ttl = testTTL
       and js = "table_codec []" and bc = "emptyBigCache 1048576" and kc = "keyDBHolding Map.empty"
       and err = "''json: unsupported value''" and data = "''payload''"]
    C10_degrades
    [where mc = "\<lparr>caches = [], logger = MockLogger, enablePropagation = True\<rparr>"
       and now = 100 and key = "''k''" and w = "[]" and val = "''test-value''" and ttl = testTTL
       and js = testCodec and bc = "emptyBigCache 3" and kc = "keyDBHolding Map.empty"
       and err = "''json: unsupported value''" and data = "''payload''"]
  by (simp add: MockLogger_def CacheLevelMiss_def testEntry_def testCodec_def
      table_codec_def emptyBigCache_def keyDBHolding_def testTTL_seconds)


section \<open>The backends\<close>

lemma BigCache_Get_spec:
  "fst (BigCache_Get js now key bc) = lookup_spec js now (entries (cache bc) key)"
  by (simp add: BigCache_Get_def bigcache_Get_def lookup_spec_def IsExpired_def
      split: option.splits)

lemma BigCache_GetStale_spec:
  "fst (BigCache_GetStale js now key bc) = lookup_spec js now (entries (cache bc) key)"
  by (simp add: BigCache_GetStale_def bigcache_Get_def lookup_spec_def IsExpired_def
      split: option.splits)

lemma KeyDBCache_Get_spec:
  "fst (KeyDBCache_Get js now key kc) =
     lookup_spec js now
       (if unavailable (client kc) then None else map_option fst (db (client kc) key))"
  by (simp add: KeyDBCache_Get_def client_Get_def lookup_spec_def IsExpired_def
      split: option.splits prod.splits)

lemma KeyDBCache_GetStale_spec:
  "fst (KeyDBCache_GetStale js now key kc) =
     lookup_spec js now
       (if unavailable (client kc) then None else map_option fst (db (client kc) key))"
  by (simp add: KeyDBCache_GetStale_def client_Get_def lookup_spec_def IsExpired_def
      split: option.splits prod.splits)

lemma BigCache_Get_GetStale_store:
  "cache (snd (BigCache_Get js now key bc)) = cache (snd (BigCache_GetStale js now key bc))"
  by (simp add: BigCache_Get_def BigCache_GetStale_def split: sum.splits option.splits)

lemma KeyDBCache_Get_GetStale_store:
  "client (snd (KeyDBCache_Get js now key kc)) = client (snd (KeyDBCache_GetStale js now key kc))"
  by (simp add: KeyDBCache_Get_def KeyDBCache_GetStale_def split: sum.splits option.splits)

lemma BigCache_Set_stores:
  "Marshal js \<lparr>Data = val,
              ExpiresAt = now + Seconds_int64 (Fresh ttl) + Seconds_int64 (Stale ttl),
              StaleAt = now + Seconds_int64 (Fresh ttl), CreatedAt = now\<rparr> = Inr data \<Longrightarrow>
   int (length data) \<le> maxEntrySize bc \<Longrightarrow> \<not> rejects (cache bc) key data \<Longrightarrow>
   entries (cache (BigCache_Set js now key val ttl bc)) key = Some data"
  by (simp add: BigCache_Set_def bigcache_Set_def)



text \<open>
  C2, as the code has it. In every state of the stores, \<open>Get\<close> and \<open>GetStale\<close> of one backend
  return the same entry and the same \<open>found\<close>, and leave the same store behind. The
  in-process backend misses when the store holds no payload under the key, when the payload
  does not decode, and when the entry is past its expiry (\<open>now > expiresAt\<close>), and returns
  the decoded entry otherwise. The networked backend does the same with the payload its
  client returns, and misses as well whenever the call of the client fails, whatever the
  store holds. So the two backends return the same when the client's call succeeds and the
  stores hold the same payload under the key. None of the four looks at freshness: a stale
  entry that has not expired is a hit.
\<close>

theorem C2_backends_agree:
  "fst (BigCache_Get js now key bc) = lookup_spec js now (entries (cache bc) key) \<and>
   fst (BigCache_GetStale js now key bc) = fst (BigCache_Get js now key bc) \<and>
   fst (KeyDBCache_Get js now key kc) =
     (if unavailable (client kc) then (None, False)
      else lookup_spec js now (map_option fst (db (client kc) key))) \<and>
   fst (KeyDBCache_GetStale js now key kc) = fst (KeyDBCache_Get js now key kc) \<and>
   (\<not> unavailable (client kc) \<and> map_option fst (db (client kc) key) = entries (cache bc) key \<longrightarrow>
      fst (KeyDBCache_Get js now key kc) = fst (BigCache_Get js now key bc) \<and>
      fst (KeyDBCache_GetStale js now key kc) = fst (BigCache_GetStale js now key bc)) \<and>
   (Unmarshal js data = Some e \<and> StaleAt e < now \<and> now \<le> ExpiresAt e \<longrightarrow>
      lookup_spec js now (Some data) = (Some e, True) \<and> \<not> IsFresh e now) \<and>
   cache (snd (BigCache_Get js now key bc)) = cache (snd (BigCache_GetStale js now key bc)) \<and>
   client (snd (KeyDBCache_Get js now key kc)) = client (snd (KeyDBCache_GetStale js now key kc))"
  by (simp add: BigCache_Get_spec BigCache_GetStale_spec KeyDBCache_Get_spec
      KeyDBCache_GetStale_spec BigCache_Get_GetStale_store KeyDBCache_Get_GetStale_store
      lookup_spec_def IsFresh_def)

theorem C2_backends_agree_witness:
  "\<not> unavailable (client (keyDBHolding [''k'' \<mapsto> (''payload'', 90 * Second)])) \<and>
   map_option fst (db (client (keyDBHolding [''k'' \<mapsto> (''payload'', 90 * Second)])) ''k'')
     = entries (cache ((emptyBigCache 1048576)
             \<lparr>cache := \<lparr>entries = [''k'' \<mapsto> ''payload''], rejects = (\<lambda>key data. False)\<rparr>\<rparr>)) ''k'' \<and>
   Unmarshal testCodec ''payload'' = Some testEntry \<and>
   StaleAt testEntry < 170 \<and> 170 \<le> ExpiresAt testEntry \<and>
   fst (BigCache_Get testCodec 170 ''k''
          ((emptyBigCache 1048576)
             \<lparr>cache := \<lparr>entries = [''k'' \<mapsto> ''payload''], rejects = (\<lambda>key data. False)\<rparr>\<rparr>))
     = (Some testEntry, True) \<and>
   fst (BigCache_GetStale testCodec 170 ''k''
          ((emptyBigCache 1048576)
             \<lparr>cache := \<lparr>entries = [''k'' \<mapsto> ''payload''], rejects = (\<lambda>key data. False)\<rparr>\<rparr>))
     = (Some testEntry, True) \<and>
   fst (KeyDBCache_Get testCodec 170 ''k'' (keyDBHolding [''k'' \<mapsto> (''payload'', 90 * Second)]))
     = (Some testEntry, True) \<and>
   fst (KeyDBCache_GetStale testCodec 170 ''k''
          (keyDBHolding [''k'' \<mapsto> (''payload'', 90 * Second)]))
     = (Some testEntry, True) \<and>
   \<not> IsFresh testEntry 170"
  using C2_backends_agree
    [where js = testCodec and now = 170 and key = "''k''" and data = "''payload''"
       and e = testEntry
       and bc = "(emptyBigCache 1048576)
             \<lparr>cache := \<lparr>entries = [''k'' \<mapsto> ''payload''], rejects = (\<lambda>key data. False)\<rparr>\<rparr>"
       and kc = "keyDBHolding [''k'' \<mapsto> (''payload'', 90 * Second)]"]
  by (simp add: testCodec_def table_codec_def testEntry_def emptyBigCache_def keyDBHolding_def)

text \<open>
  C2 as stated has the two backends return the same in every state of the stores, a miss
  only for an absent key, an undecodable payload and an expired entry. With the payload of
  the test entry under the key in both stores, at time 110, the in-process backend returns
  the entry; the networked backend, the call of its client failing, returns a miss.
\<close>

theorem C2_client_error_counterexample:
  "entries (cache ((emptyBigCache 1048576)
             \<lparr>cache := \<lparr>entries = [''k'' \<mapsto> ''payload''], rejects = (\<lambda>key data. False)\<rparr>\<rparr>)) ''k''
     = Some ''payload'' \<and>
   db (client \<lparr>client = \<lparr>db = [''k'' \<mapsto> (''payload'', 90 * Second)], unavailable = True\<rparr>,
               kc_events = []\<rparr>) ''k''
     = Some (''payload'', 90 * Second) \<and>
   Unmarshal testCodec ''payload'' = Some testEntry \<and>
   \<not> 110 > ExpiresAt testEntry \<and>
   fst (BigCache_Get testCodec 110 ''k''
          ((emptyBigCache 1048576)
             \<lparr>cache := \<lparr>entries = [''k'' \<mapsto> ''payload''], rejects = (\<lambda>key data. False)\<rparr>\<rparr>))
     = (Some testEntry, True) \<and>
   fst (KeyDBCache_Get testCodec 110 ''k''
          \<lparr>client = \<lparr>db = [''k'' \<mapsto> (''payload'', 90 * Second)], unavailable = True\<rparr>,
           kc_events = []\<rparr>)
     = (None, False) \<and>
   fst (KeyDBCache_GetStale testCodec 110 ''k''
          \<lparr>client = \<lparr>db = [''k'' \<mapsto> (''payload'', 90 * Second)], unavailable = True\<rparr>,
           kc_events = []\<rparr>)
     = (None, False)"
  by (simp add: BigCache_Get_def KeyDBCache_Get_def KeyDBCache_GetStale_def bigcache_Get_def
      client_Get_def testCodec_def table_codec_def testEntry_def emptyBigCache_def
      IsExpired_def)

text \<open>
  C1, as the code has it. After \<open>Set k d\<close> with 60 s fresh and 30 s stale at time \<open>t0\<close> has
  stored its entry, \<open>Get k\<close> at \<open>t0 + 70\<close> returns the entry with \<open>found = True\<close>, although the
  entry is no longer fresh, and so does \<open>GetStale k\<close>: neither method consults freshness, and
  in every state the two return the same.
\<close>

theorem C1_staleness_window:
  assumes "Marshal js \<lparr>Data = d, ExpiresAt = t0 + 90, StaleAt = t0 + 60, CreatedAt = t0\<rparr> = Inr payload"
    and "Unmarshal js payload = Some \<lparr>Data = d, ExpiresAt = t0 + 90, StaleAt = t0 + 60, CreatedAt = t0\<rparr>"
    and "int (length payload) \<le> maxEntrySize bc"
    and "\<not> rejects (cache bc) k payload"
  shows
    "fst (BigCache_Get js (t0 + 70) k
            (BigCache_Set js t0 k d \<lparr>Fresh = 60 * Second, Stale = 30 * Second\<rparr> bc))
       = (Some \<lparr>Data = d, ExpiresAt = t0 + 90, StaleAt = t0 + 60, CreatedAt = t0\<rparr>, True) \<and>
     fst (BigCache_GetStale js (t0 + 70) k
            (BigCache_Set js t0 k d \<lparr>Fresh = 60 * Second, Stale = 30 * Second\<rparr> bc))
       = (Some \<lparr>Data = d, ExpiresAt = t0 + 90, StaleAt = t0 + 60, CreatedAt = t0\<rparr>, True) \<and>
     \<not> IsFresh \<lparr>Data = d, ExpiresAt = t0 + 90, StaleAt = t0 + 60, CreatedAt = t0\<rparr> (t0 + 70) \<and>
     fst (BigCache_Get js now k bc') = fst (BigCache_GetStale js now k bc')"
proof -
  let ?ttl = "\<lparr>Fresh = 60 * Second, Stale = 30 * Second\<rparr>"
  let ?e = "\<lparr>Data = d, ExpiresAt = t0 + 90, StaleAt = t0 + 60, CreatedAt = t0\<rparr>"
  have eq: "\<lparr>Data = d,
              ExpiresAt = t0 + Seconds_int64 (Fresh ?ttl) + Seconds_int64 (Stale ?ttl),
              StaleAt = t0 + Seconds_int64 (Fresh ?ttl), CreatedAt = t0\<rparr> = ?e"
    by (simp add: testTTL_seconds)
  have m: "Marshal js \<lparr>Data = d,
              ExpiresAt = t0 + Seconds_int64 (Fresh ?ttl) + Seconds_int64 (Stale ?ttl),
              StaleAt = t0 + Seconds_int64 (Fresh ?ttl), CreatedAt = t0\<rparr> = Inr payload"
    unfolding eq by (rule assms(1))
  have stored: "entries (cache (BigCache_Set js t0 k d ?ttl bc)) k = Some payload"
    by (rule BigCache_Set_stores [OF m assms(3) assms(4)])
  have spec: "lookup_spec js (t0 + 70) (Some payload) = (Some ?e, True)"
    using assms(2) by (simp add: lookup_spec_def)
  show ?thesis
    using stored spec
    by (simp add: BigCache_Get_spec BigCache_GetStale_spec IsFresh_def)
qed

theorem C1_staleness_window_witness:
  "Marshal testCodec \<lparr>Data = ''test-value'', ExpiresAt = 100 + 90, StaleAt = 100 + 60, CreatedAt = 100\<rparr>
     = Inr ''payload'' \<and>
   Unmarshal testCodec ''payload''
     = Some \<lparr>Data = ''test-value'', ExpiresAt = 100 + 90, StaleAt = 100 + 60, CreatedAt = 100\<rparr> \<and>
   int (length ''payload'') \<le> maxEntrySize (emptyBigCache 1048576) \<and>
   \<not> rejects (cache (emptyBigCache 1048576)) ''k'' ''payload'' \<and>
   fst (BigCache_Get testCodec 170 ''k''
          (BigCache_Set testCodec 100 ''k'' ''test-value''
             \<lparr>Fresh = 60 * Second, Stale = 30 * Second\<rparr> (emptyBigCache 1048576)))
     = (Some testEntry, True) \<and>
   fst (BigCache_GetStale testCodec 170 ''k''
          (BigCache_Set testCodec 100 ''k'' ''test-value''
             \<lparr>Fresh = 60 * Second, Stale = 30 * Second\<rparr> (emptyBigCache 1048576)))
     = (Some testEntry, True) \<and>
   \<not> IsFresh testEntry 170"
proof -
  have h1: "Marshal testCodec
      \<lparr>Data = ''test-value'', ExpiresAt = 100 + 90, StaleAt = 100 + 60, CreatedAt = 100\<rparr>
      = Inr ''payload''"
    by (simp add: testCodec_def table_codec_def testEntry_def)
  have h2: "Unmarshal testCodec ''payload''
     = Some \<lparr>Data = ''test-value'', ExpiresAt = 100 + 90, StaleAt = 100 + 60, CreatedAt = 100\<rparr>"
    by (simp add: testCodec_def table_codec_def testEntry_def)
  have h3: "int (length ''payload'') \<le> maxEntrySize (emptyBigCache 1048576)"
    by (simp add: emptyBigCache_def)
  have h4: "\<not> rejects (cache (emptyBigCache 1048576)) ''k'' ''payload''"
    by (simp add: emptyBigCache_def)
  show ?thesis
    using h1 h2 h3 h4 C1_staleness_window [OF h1 h2 h3 h4]
    by (simp add: testEntry_def)
qed

text \<open>
  C1 as stated expects \<open>Get\<close> at \<open>t0 + 70\<close> to return no entry and \<open>found = False\<close>. At
  \<open>t0 = 100\<close> the in-process backend returns the stale entry.
\<close>

theorem C1_get_ignores_freshness_counterexample:
  "fst (BigCache_Get testCodec (100 + 70) ''k''
          (BigCache_Set testCodec 100 ''k'' ''test-value''
             \<lparr>Fresh = 60 * Second, Stale = 30 * Second\<rparr> (emptyBigCache 1048576)))
     = (Some testEntry, True) \<and>
   fst (BigCache_Get testCodec (100 + 70) ''k''
          (BigCache_Set testCodec 100 ''k'' ''test-value''
             \<lparr>Fresh = 60 * Second, Stale = 30 * Second\<rparr> (emptyBigCache 1048576)))
     \<noteq> (None, False)"
  by (simp add: BigCache_Get_def BigCache_Set_def bigcache_Get_def bigcache_Set_def
      testCodec_def table_codec_def testEntry_def emptyBigCache_def testTTL_seconds
      IsExpired_def)




end
